theory Spec2Isabelle
  imports Main "HOL-Library.AList" "HOL-Library.Multiset"
begin

section \<open>Python exceptions\<close>

text \<open>
  The exceptions that the functions of \<^verbatim>\<open>post_process.py\<close> can raise themselves or
  receive from the libraries they call. \<open>LibraryError\<close> stands for any other exception
  raised inside an external routine, with its message.
\<close>

datatype error =
    ValueError
  | TypeError
  | AttributeError
  | KeyError
  | IndexError
  | LibraryError string

section \<open>Python objects\<close>

text \<open>
  Python passes references to objects. A reference is an address of the object store;
  the store is the list of all objects allocated so far, an object's address being its
  position, so that a new object is appended at the end. The kinds of object that the
  functions tell apart: \<^verbatim>\<open>None\<close>, integers, lists, tuples, dictionaries, instances with
  their attribute dictionary (such as a \<^verbatim>\<open>RUMBoost\<close> model), and \<open>Opaque\<close> for any other
  object that is only passed around (a booster, a device tag, an array).
\<close>

type_synonym ref = nat

datatype pyobj =
    NoneObj
  | IntObj int
  | ListObj "ref list"
  | TupleObj "ref list"
  | DictObj "(ref \<times> ref) list"
  | Instance (attributes: "(string \<times> ref) list")
  | Opaque string

type_synonym heap = "pyobj list"

text \<open>A computation runs on the store and ends with a result or an exception.\<close>

type_synonym 'a py = "heap \<Rightarrow> (error + 'a) \<times> heap"

definition py_return :: "'a \<Rightarrow> 'a py" where
  "py_return x h = (Inr x, h)"

definition py_raise :: "error \<Rightarrow> 'a py" where
  "py_raise e h = (Inl e, h)"

text \<open>One statement after the other: an exception of the first skips the second.\<close>

definition py_bind :: "'a py \<Rightarrow> ('a \<Rightarrow> 'b py) \<Rightarrow> 'b py" where
  "py_bind m f h = (case m h of (Inl e, h') \<Rightarrow> (Inl e, h') | (Inr x, h') \<Rightarrow> f x h')"

definition py_seq :: "unit py \<Rightarrow> 'b py \<Rightarrow> 'b py" where
  "py_seq m n = py_bind m (\<lambda>_. n)"

definition deref :: "heap \<Rightarrow> ref \<Rightarrow> pyobj option" where
  "deref h r = (if r < length h then Some (h ! r) else None)"

definition alloc :: "pyobj \<Rightarrow> ref py" where
  "alloc ob h = (Inr (length h), h @ [ob])"

text \<open>\<^verbatim>\<open>obj.name\<close>: AttributeError when the object has no such attribute.\<close>

definition getattr :: "ref \<Rightarrow> string \<Rightarrow> ref py" where
  "getattr r name h =
     (case deref h r of
        Some (Instance attrs) \<Rightarrow>
          (case map_of attrs name of
             Some v \<Rightarrow> (Inr v, h)
           | None \<Rightarrow> (Inl AttributeError, h))
      | _ \<Rightarrow> (Inl AttributeError, h))"

text \<open>\<^verbatim>\<open>obj.name = v\<close>: the attribute dictionary of the instance is updated in place.\<close>

definition setattr :: "ref \<Rightarrow> string \<Rightarrow> ref \<Rightarrow> unit py" where
  "setattr r name v h =
     (case deref h r of
        Some (Instance attrs) \<Rightarrow> (Inr (), h[r := Instance (AList.update name v attrs)])
      | _ \<Rightarrow> (Inl AttributeError, h))"

text \<open>\<^verbatim>\<open>isinstance(v, list)\<close>: true of a list, false of a tuple and of every other object.\<close>

definition isinstance_list :: "ref \<Rightarrow> bool py" where
  "isinstance_list v h =
     (case deref h v of Some (ListObj items) \<Rightarrow> (Inr True, h) | _ \<Rightarrow> (Inr False, h))"

text \<open>
  The entries that iterating over an object yields: the items of a list or a tuple, the
  keys of a dictionary; TypeError for an object that is not iterable.
\<close>

definition iterate :: "ref \<Rightarrow> ref list py" where
  "iterate v h =
     (case deref h v of
        Some (ListObj items) \<Rightarrow> (Inr items, h)
      | Some (TupleObj items) \<Rightarrow> (Inr items, h)
      | Some (DictObj entries) \<Rightarrow> (Inr (map fst entries), h)
      | _ \<Rightarrow> (Inl TypeError, h))"

text \<open>\<^verbatim>\<open>range(start, stop, step)\<close> for a positive step.\<close>

definition py_range :: "nat \<Rightarrow> nat \<Rightarrow> nat \<Rightarrow> nat list" where
  "py_range start stop step = filter (\<lambda>i. (i - start) mod step = 0) [start..<stop]"

text \<open>
  \<^verbatim>\<open>xs[start::2]\<close>: the object that the slice builds, a list from a list and a tuple from
  a tuple; TypeError for an object that cannot be sliced.
\<close>

definition slice_step2 :: "nat \<Rightarrow> ref \<Rightarrow> pyobj py" where
  "slice_step2 start v h =
     (case deref h v of
        Some (ListObj items) \<Rightarrow>
          (Inr (ListObj (map (\<lambda>i. items ! i) (py_range start (length items) 2))), h)
      | Some (TupleObj items) \<Rightarrow>
          (Inr (TupleObj (map (\<lambda>i. items ! i) (py_range start (length items) 2))), h)
      | _ \<Rightarrow> (Inl TypeError, h))"

section \<open>split\_fe\_model\<close>

text \<open>
  \<^verbatim>\<open>RUMBoost()\<close>: a new instance. The class is not part of \<^verbatim>\<open>post_process.py\<close>; the
  attributes that its constructor sets on a new instance are the parameter \<open>init\<close>.
\<close>

definition RUMBoost :: "(string \<times> ref) list \<Rightarrow> ref py" where
  "RUMBoost init = alloc (Instance init)"

text \<open>
  \<^verbatim>\<open>target.boosters = [b for i, b in enumerate(model.boosters) if i % 2 == parity]\<close>:
  the comprehension builds a new list.
\<close>

definition assign_boosters :: "nat \<Rightarrow> ref \<Rightarrow> ref \<Rightarrow> unit py" where
  "assign_boosters parity model target =
     py_bind (getattr model ''boosters'') (\<lambda>boosters.
     py_bind (iterate boosters) (\<lambda>items.
     py_bind (alloc (ListObj
        (map snd (filter (\<lambda>(i, b). i mod 2 = parity) (List.enumerate 0 items))))) (\<lambda>l.
     setattr target ''boosters'' l)))"

text \<open>\<^verbatim>\<open>target.rum_structure = model.rum_structure[start::2]\<close>: the slice is a new object.\<close>

definition assign_rum_structure :: "nat \<Rightarrow> ref \<Rightarrow> ref \<Rightarrow> unit py" where
  "assign_rum_structure start model target =
     py_bind (getattr model ''rum_structure'') (\<lambda>rum_structure.
     py_bind (slice_step2 start rum_structure) (\<lambda>sliced.
     py_bind (alloc sliced) (\<lambda>l.
     setattr target ''rum_structure'' l)))"

text \<open>\<^verbatim>\<open>target.name = model.name\<close>.\<close>

definition copy_attr :: "string \<Rightarrow> ref \<Rightarrow> ref \<Rightarrow> unit py" where
  "copy_attr name model target =
     py_bind (getattr model name) (\<lambda>v. setattr target name v)"

text \<open>The function, statement by statement; it returns the pair of the two new models.\<close>

definition split_fe_model :: "(string \<times> ref) list \<Rightarrow> ref \<Rightarrow> (ref \<times> ref) py" where
  "split_fe_model init model =
     py_bind (getattr model ''rum_structure'') (\<lambda>rum_structure.
     py_bind (isinstance_list rum_structure) (\<lambda>is_list.
     if \<not> is_list then py_raise ValueError
     else
       py_bind (RUMBoost init) (\<lambda>attributes_model.
       py_bind (RUMBoost init) (\<lambda>socio_economic_model.
       py_seq (assign_boosters 0 model attributes_model)
      (py_seq (assign_rum_structure 0 model attributes_model)
      (py_seq (copy_attr ''num_classes'' model attributes_model)
      (py_seq (copy_attr ''device'' model attributes_model)
      (py_seq (copy_attr ''nests'' model attributes_model)
      (py_seq (copy_attr ''alphas'' model attributes_model)
      (py_seq (assign_boosters 1 model socio_economic_model)
      (py_seq (assign_rum_structure 1 model socio_economic_model)
      (py_seq (copy_attr ''num_classes'' model socio_economic_model)
      (py_seq (copy_attr ''device'' model socio_economic_model)
      (py_seq (copy_attr ''nests'' model socio_economic_model)
      (py_seq (copy_attr ''alphas'' model socio_economic_model)
      (py_return (attributes_model, socio_economic_model)))))))))))))))))"

text \<open>
  What a caller can read off a store: the reference an attribute holds, and the items of
  the list an attribute refers to.
\<close>

definition attr :: "heap \<Rightarrow> ref \<Rightarrow> string \<Rightarrow> ref option" where
  "attr h r name =
     (case deref h r of Some (Instance attrs) \<Rightarrow> map_of attrs name | _ \<Rightarrow> None)"

definition attr_names :: "heap \<Rightarrow> ref \<Rightarrow> string set" where
  "attr_names h r =
     (case deref h r of Some (Instance attrs) \<Rightarrow> set (map fst attrs) | _ \<Rightarrow> {})"

definition list_items :: "heap \<Rightarrow> ref \<Rightarrow> ref list option" where
  "list_items h v = (case deref h v of Some (ListObj items) \<Rightarrow> Some items | _ \<Rightarrow> None)"

definition attr_list :: "heap \<Rightarrow> ref \<Rightarrow> string \<Rightarrow> ref list option" where
  "attr_list h r name = (case attr h r name of Some v \<Rightarrow> list_items h v | None \<Rightarrow> None)"

text \<open>The sequences among the objects of the store: the lists and the tuples.\<close>

definition is_sequence :: "heap \<Rightarrow> ref \<Rightarrow> bool" where
  "is_sequence h v =
     (case deref h v of
        Some (ListObj items) \<Rightarrow> True
      | Some (TupleObj items) \<Rightarrow> True
      | _ \<Rightarrow> False)"

text \<open>
  A model as \<^verbatim>\<open>split_fe_model\<close> expects it: an instance with the six attributes, whose
  \<^verbatim>\<open>boosters\<close> and \<^verbatim>\<open>rum_structure\<close> are lists, with items \<open>bs\<close> and \<open>rs\<close>.
\<close>

definition is_rumboost_model :: "heap \<Rightarrow> ref \<Rightarrow> ref list \<Rightarrow> ref list \<Rightarrow> bool" where
  "is_rumboost_model h model bs rs =
     (attr_list h model ''boosters'' = Some bs
      \<and> attr_list h model ''rum_structure'' = Some rs
      \<and> attr h model ''num_classes'' \<noteq> None
      \<and> attr h model ''device'' \<noteq> None
      \<and> attr h model ''nests'' \<noteq> None
      \<and> attr h model ''alphas'' \<noteq> None)"

subsection \<open>Three concrete stores\<close>

text \<open>
  A store with a functional-effect model for two alternatives at address 14 (four
  boosters, four structure dictionaries, and one attribute beyond the six), a store
  whose model at address 1 has a dictionary as its \<^verbatim>\<open>rum_structure\<close>, and a store whose
  model at address 9 has a tuple of two structure dictionaries as its \<^verbatim>\<open>rum_structure\<close>.
\<close>

definition demo_heap :: heap where
  "demo_heap =
     [NoneObj, IntObj 2, Opaque ''cpu'',
      Opaque ''booster a0'', Opaque ''booster s0'', Opaque ''booster a1'', Opaque ''booster s1'',
      DictObj [], DictObj [], DictObj [], DictObj [],
      ListObj [3, 4, 5, 6], ListObj [7, 8, 9, 10], DictObj [],
      Instance [(''boosters'', 11), (''rum_structure'', 12), (''num_classes'', 1),
                (''device'', 2), (''nests'', 13), (''alphas'', 0), (''best_iteration'', 1)]]"

definition demo_dict_heap :: heap where
  "demo_dict_heap = [DictObj [], Instance [(''rum_structure'', 0), (''boosters'', 0)]]"

definition demo_tuple_heap :: heap where
  "demo_tuple_heap =
     [NoneObj, IntObj 2, Opaque ''cpu'', Opaque ''booster a0'', Opaque ''booster s0'',
      DictObj [], DictObj [], TupleObj [5, 6], ListObj [3, 4],
      Instance [(''boosters'', 8), (''rum_structure'', 7), (''num_classes'', 1),
                (''device'', 2), (''nests'', 0), (''alphas'', 0)]]"

text \<open>
  Two properties of a computation: it leaves the objects of \<open>h\<close> as they are, whatever
  has been allocated after them; it never ends with the exception \<open>x\<close>.
\<close>

definition extends_only :: "heap \<Rightarrow> 'a py \<Rightarrow> bool" where
  "extends_only h m = (\<forall>e0. \<exists>e. snd (m (h @ e0)) = h @ e)"

definition never_raises :: "error \<Rightarrow> 'a py \<Rightarrow> bool" where
  "never_raises x m = (\<forall>h. fst (m h) \<noteq> Inl x)"

section \<open>bootstrap\<close>

subsection \<open>numpy: the process-wide random source\<close>

text \<open>
  \<^verbatim>\<open>np.random\<close> is one generator shared by the whole process. Its state is the type
  parameter \<open>'g\<close>; the generator itself is external and enters as two functions:
  \<open>seed_state\<close>, the state that seeding with an integer installs, and \<open>next_raw\<close>, one
  raw output together with the advanced state.
\<close>

record 'g np_random =
  seed_state :: "int \<Rightarrow> 'g"
  next_raw :: "'g \<Rightarrow> nat \<times> 'g"

text \<open>
  \<^verbatim>\<open>np.random.seed(seed)\<close>: numpy accepts an integer seed from 0 to \<open>2\<^sup>3\<^sup>2 - 1\<close> and then
  replaces the state of the shared generator, whatever it was; for any other integer it
  raises ValueError and leaves the generator as it is.
\<close>

definition np_random_seed :: "'g np_random \<Rightarrow> int \<Rightarrow> 'g \<Rightarrow> error + 'g" where
  "np_random_seed R seed g =
     (if 0 \<le> seed \<and> seed < 2 ^ 32 then Inr (seed_state R seed) else Inl ValueError)"

text \<open>
  \<open>n\<close> positions below \<open>bound\<close>, drawn one after the other from the shared generator.
  numpy bounds each raw output into \<open>0..<bound\<close>; the model reduces it modulo the bound.
\<close>

fun draw_positions :: "'g np_random \<Rightarrow> nat \<Rightarrow> nat \<Rightarrow> 'g \<Rightarrow> nat list \<times> 'g" where
  "draw_positions R bound 0 g = ([], g)"
| "draw_positions R bound (Suc n) g =
     (case next_raw R g of (x, g1) \<Rightarrow>
        (case draw_positions R bound n g1 of (ps, g2) \<Rightarrow> ((x mod bound) # ps, g2)))"

text \<open>
  \<^verbatim>\<open>np.random.choice(a, size=sz, replace=True)\<close>: \<open>sz\<close> entries of \<open>a\<close>, each at a
  drawn position. numpy raises ValueError for an empty population unless no sample is
  taken.
\<close>

definition random_choice ::
  "'g np_random \<Rightarrow> int list \<Rightarrow> nat \<Rightarrow> 'g \<Rightarrow> error + (int list \<times> 'g)" where
  "random_choice R a sz g =
     (if a = [] \<and> sz \<noteq> 0 then Inl ValueError
      else (case draw_positions R (length a) sz g of
              (ps, g') \<Rightarrow> Inr (map (\<lambda>p. a ! p) ps, g')))"

text \<open>\<^verbatim>\<open>np.unique\<close>: the sorted values, each once (sort, then drop adjacent repeats).\<close>

definition unique :: "int list \<Rightarrow> int list" where
  "unique xs = remdups_adj (sort xs)"

text \<open>
  \<^verbatim>\<open>np.setdiff1d(ar1, ar2)\<close>: both arguments are made unique, and the entries of the first
  that are not in the second are kept.
\<close>

definition setdiff1d :: "int list \<Rightarrow> int list \<Rightarrow> int list" where
  "setdiff1d ar1 ar2 =
     (let a1 = unique ar1; a2 = unique ar2 in filter (\<lambda>x. x \<notin> set a2) a1)"

subsection \<open>pandas and lightgbm\<close>

text \<open>
  A labelled data frame: one entry per row, holding the row's index label, its feature
  columns (everything but \<^verbatim>\<open>choice\<close>) and its \<^verbatim>\<open>choice\<close> value. Index labels may
  repeat.
\<close>

type_synonym ('f, 'c) dataframe = "(int \<times> 'f \<times> 'c) list"

definition df_index :: "('f, 'c) dataframe \<Rightarrow> int list" where
  "df_index df = map fst df"

text \<open>
  \<^verbatim>\<open>df.loc[ids]\<close> with a list of labels: for each requested label in turn, the rows that
  carry it; KeyError when a label is not in the index.
\<close>

definition loc :: "('f, 'c) dataframe \<Rightarrow> int list \<Rightarrow> error + ('f, 'c) dataframe" where
  "loc df ids =
     (if list_all (\<lambda>i. i \<in> set (df_index df)) ids
      then Inr (concat (map (\<lambda>i. filter (\<lambda>r. fst r = i) df) ids))
      else Inl KeyError)"

text \<open>\<^verbatim>\<open>df.drop("choice", axis=1)\<close> and \<^verbatim>\<open>df.choice\<close>; both keep the index.\<close>

definition drop_choice :: "('f, 'c) dataframe \<Rightarrow> (int \<times> 'f) list" where
  "drop_choice df = map (\<lambda>(i, f, c). (i, f)) df"

definition choice_column :: "('f, 'c) dataframe \<Rightarrow> (int \<times> 'c) list" where
  "choice_column df = map (\<lambda>(i, f, c). (i, c)) df"

text \<open>\<^verbatim>\<open>lgb.Dataset(data, label=..., free_raw_data=...)\<close>: the constructor stores its arguments.\<close>

record ('f, 'c) lgb_dataset =
  raw_data :: "(int \<times> 'f) list"
  raw_label :: "(int \<times> 'c) list"
  free_raw_data :: bool

definition lgb_Dataset :: "(int \<times> 'f) list \<Rightarrow> (int \<times> 'c) list \<Rightarrow> bool \<Rightarrow> ('f, 'c) lgb_dataset" where
  "lgb_Dataset d l free = \<lparr>raw_data = d, raw_label = l, free_raw_data = free\<rparr>"

subsection \<open>The resample-and-retrain loop\<close>

text \<open>
  \<^verbatim>\<open>rum_train\<close> is external: it receives the training set, the model specification and the
  validation sets, returns a trained model or raises, and may advance the shared
  generator.
\<close>

type_synonym ('g, 'f, 'c, 's, 'm) trainer =
  "('f, 'c) lgb_dataset \<Rightarrow> 's \<Rightarrow> ('f, 'c) lgb_dataset list \<Rightarrow> 'g \<Rightarrow> (error + 'm) \<times> 'g"

text \<open>
  The state of a run: the shared generator, the local list \<^verbatim>\<open>models\<close>, and (as a ghost
  field) the pair \<^verbatim>\<open>(ids, ids2)\<close> of every iteration begun so far.
\<close>

record ('g, 'm) run_state =
  rng :: 'g
  models :: "'m list"
  drawn :: "(int list \<times> int list) list"

text \<open>
  The body of the \<^verbatim>\<open>for\<close> loop up to the value handed to \<^verbatim>\<open>models.append\<close>, from
  generator state \<open>g\<close>: the pair \<^verbatim>\<open>(ids, ids2)\<close> once it is computed, the trained model or
  the exception, and the generator state left behind.
\<close>

definition resample_and_train ::
  "'g np_random \<Rightarrow> ('g, 'f, 'c, 's, 'm) trainer \<Rightarrow> ('f, 'c) dataframe \<Rightarrow> 's \<Rightarrow> nat \<Rightarrow>
   'g \<Rightarrow> (int list \<times> int list) list \<times> (error + 'm) \<times> 'g" where
  "resample_and_train R train dataset model_specification N g =
     (case random_choice R (df_index dataset) N g of
        Inl e \<Rightarrow> ([], Inl e, g)
      | Inr (ids, g1) \<Rightarrow>
          let ids2 = setdiff1d (df_index dataset) ids
          in (case loc dataset ids of
                Inl e \<Rightarrow> ([(ids, ids2)], Inl e, g1)
              | Inr df_train \<Rightarrow>
                  (case loc dataset ids2 of
                     Inl e \<Rightarrow> ([(ids, ids2)], Inl e, g1)
                   | Inr df_test \<Rightarrow>
                       let dataset_train =
                             lgb_Dataset (drop_choice df_train) (choice_column df_train) False;
                           valid_set =
                             lgb_Dataset (drop_choice df_test) (choice_column df_test) False
                       in (case train dataset_train model_specification [valid_set] g1 of
                             (r, g2) \<Rightarrow> ([(ids, ids2)], r, g2)))))"

text \<open>
  One pass through the body: the trained model is appended to \<^verbatim>\<open>models\<close>; \<open>Some e\<close> is an
  exception leaving the body.
\<close>

definition iteration ::
  "'g np_random \<Rightarrow> ('g, 'f, 'c, 's, 'm) trainer \<Rightarrow> ('f, 'c) dataframe \<Rightarrow> 's \<Rightarrow> nat \<Rightarrow>
   ('g, 'm) run_state \<Rightarrow> ('g, 'm) run_state \<times> error option" where
  "iteration R train dataset model_specification N st =
     (case resample_and_train R train dataset model_specification N (rng st) of
        (d, r, g') \<Rightarrow>
          let st1 = st\<lparr>rng := g', drawn := drawn st @ d\<rparr>
          in (case r of
                Inl e \<Rightarrow> (st1, Some e)
              | Inr m \<Rightarrow> (st1\<lparr>models := models st1 @ [m]\<rparr>, None)))"

text \<open>\<^verbatim>\<open>for _ in range(num_it)\<close>: the body, the given number of times, unless an exception leaves it.\<close>

fun bootstrap_loop ::
  "'g np_random \<Rightarrow> ('g, 'f, 'c, 's, 'm) trainer \<Rightarrow> ('f, 'c) dataframe \<Rightarrow> 's \<Rightarrow> nat \<Rightarrow>
   nat \<Rightarrow> ('g, 'm) run_state \<Rightarrow> ('g, 'm) run_state \<times> error option" where
  "bootstrap_loop R train dataset model_specification N 0 st = (st, None)"
| "bootstrap_loop R train dataset model_specification N (Suc n) st =
     (case iteration R train dataset model_specification N st of
        (st', Some e) \<Rightarrow> (st', Some e)
      | (st', None) \<Rightarrow> bootstrap_loop R train dataset model_specification N n st')"

text \<open>
  The whole call, started in a process whose shared generator is in state \<open>g0\<close>: the final
  state of the run and the exception that ended it, if any. When the seeding raises,
  nothing else has happened. \<^verbatim>\<open>range(num_it)\<close> is empty for a count that is not positive.
\<close>

definition bootstrap_run ::
  "'g np_random \<Rightarrow> ('g, 'f, 'c, 's, 'm) trainer \<Rightarrow> ('f, 'c) dataframe \<Rightarrow> 's \<Rightarrow> int \<Rightarrow>
   int \<Rightarrow> 'g \<Rightarrow> ('g, 'm) run_state \<times> error option" where
  "bootstrap_run R train dataset model_specification num_it seed g0 =
     (case np_random_seed R seed g0 of
        Inl e \<Rightarrow> (\<lparr>rng = g0, models = [], drawn = []\<rparr>, Some e)
      | Inr g \<Rightarrow>
          let N = length dataset
          in bootstrap_loop R train dataset model_specification N (nat num_it)
               \<lparr>rng = g, models = [], drawn = []\<rparr>)"

text \<open>What the caller of \<^verbatim>\<open>bootstrap\<close> receives: the exception, or the returned list.\<close>

definition bootstrap ::
  "'g np_random \<Rightarrow> ('g, 'f, 'c, 's, 'm) trainer \<Rightarrow> ('f, 'c) dataframe \<Rightarrow> 's \<Rightarrow> int \<Rightarrow>
   int \<Rightarrow> 'g \<Rightarrow> error + 'm list" where
  "bootstrap R train dataset model_specification num_it seed g0 =
     (case bootstrap_run R train dataset model_specification num_it seed g0 of
        (st, Some e) \<Rightarrow> Inl e
      | (st, None) \<Rightarrow> Inr (models st))"

subsection \<open>The iterations of a run, one by one\<close>

text \<open>
  The generator state after \<open>i\<close> passes through the body that raised nothing, started in
  state \<open>g\<close>.
\<close>

fun gen_after ::
  "'g np_random \<Rightarrow> ('g, 'f, 'c, 's, 'm) trainer \<Rightarrow> ('f, 'c) dataframe \<Rightarrow> 's \<Rightarrow> nat \<Rightarrow>
   'g \<Rightarrow> nat \<Rightarrow> 'g" where
  "gen_after R train dataset model_specification N g 0 = g"
| "gen_after R train dataset model_specification N g (Suc i) =
     snd (snd (resample_and_train R train dataset model_specification N
       (gen_after R train dataset model_specification N g i)))"

text \<open>
  The generator state in which iteration \<open>i\<close> (counted from 0) of a call starts when the
  seed was accepted and no earlier iteration raised, and what the body yields there: the
  pair \<^verbatim>\<open>(ids, ids2)\<close>, and the trained model or the exception.
\<close>

definition gen_before ::
  "'g np_random \<Rightarrow> ('g, 'f, 'c, 's, 'm) trainer \<Rightarrow> ('f, 'c) dataframe \<Rightarrow> 's \<Rightarrow> int \<Rightarrow>
   nat \<Rightarrow> 'g" where
  "gen_before R train dataset model_specification seed i =
     gen_after R train dataset model_specification (length dataset) (seed_state R seed) i"

definition resampled_in ::
  "'g np_random \<Rightarrow> ('g, 'f, 'c, 's, 'm) trainer \<Rightarrow> ('f, 'c) dataframe \<Rightarrow> 's \<Rightarrow> int \<Rightarrow>
   nat \<Rightarrow> (int list \<times> int list) list" where
  "resampled_in R train dataset model_specification seed i =
     fst (resample_and_train R train dataset model_specification (length dataset)
       (gen_before R train dataset model_specification seed i))"

definition trained_in ::
  "'g np_random \<Rightarrow> ('g, 'f, 'c, 's, 'm) trainer \<Rightarrow> ('f, 'c) dataframe \<Rightarrow> 's \<Rightarrow> int \<Rightarrow>
   nat \<Rightarrow> error + 'm" where
  "trained_in R train dataset model_specification seed i =
     fst (snd (resample_and_train R train dataset model_specification (length dataset)
       (gen_before R train dataset model_specification seed i)))"

subsection \<open>A small concrete run\<close>

text \<open>
  A generator over the naturals (the raw output is the state, the next state is
  \<open>3 * g + 1\<close>), a trainer that returns the sizes of the training set and of the
  validation sets, and a data frame of three rows labelled 10, 11 and 12.
\<close>

definition demo_random :: "nat np_random" where
  "demo_random = \<lparr>seed_state = (\<lambda>s. nat s), next_raw = (\<lambda>g. (g, 3 * g + 1))\<rparr>"

definition demo_train :: "(nat, string, bool, unit, nat \<times> nat) trainer" where
  "demo_train d s v g =
     (Inr (length (raw_data d), sum_list (map (\<lambda>x. length (raw_data x)) v)), g)"

definition demo_dataset :: "(string, bool) dataframe" where
  "demo_dataset = [(10, ''a'', True), (11, ''b'', False), (12, ''c'', True)]"

text \<open>A trainer that raises as soon as the validation set has two rows.\<close>

definition demo_failing_train :: "(nat, string, bool, unit, nat \<times> nat) trainer" where
  "demo_failing_train d s v g =
     (if sum_list (map (\<lambda>x. length (raw_data x)) v) = 2
      then (Inl (LibraryError ''diverged''), g)
      else demo_train d s v g)"

section \<open>assist\_model\_spec\<close>


















subsection \<open>A concrete model\<close>




section \<open>Properties of bootstrap\<close>

subsection \<open>Resampling and the complement\<close>

lemma draw_positions_length:
  "draw_positions R b n g = (ps, g') \<Longrightarrow> length ps = n"
  by (induction n arbitrary: g ps g') (auto split: prod.splits)

lemma draw_positions_below:
  "draw_positions R b n g = (ps, g') \<Longrightarrow> 0 < b \<Longrightarrow> p \<in> set ps \<Longrightarrow> p < b"
  by (induction n arbitrary: g ps g') (auto split: prod.splits)

lemma random_choice_length:
  "random_choice R a n g = Inr (ids, g') \<Longrightarrow> length ids = n"
  by (auto simp: random_choice_def draw_positions_length split: if_splits prod.splits)

lemma random_choice_subset:
  assumes "random_choice R a n g = Inr (ids, g')"
  shows "set ids \<subseteq> set a"
proof (cases "a = []")
  case True
  with assms have "n = 0" by (simp add: random_choice_def split: if_splits)
  with assms show ?thesis by (simp add: random_choice_def)
next
  case False
  obtain ps where ps: "draw_positions R (length a) n g = (ps, g')"
    and ids: "ids = map (\<lambda>p. a ! p) ps"
    using assms False by (auto simp: random_choice_def split: prod.splits)
  have "p < length a" if "p \<in> set ps" for p
    using draw_positions_below [OF ps _ that] False by simp
  then show ?thesis by (auto simp: ids)
qed

lemma sorted_unique: "sorted (unique xs)"
  by (simp add: unique_def)

lemma distinct_remdups_adj_sorted: "sorted xs \<Longrightarrow> distinct (remdups_adj xs)"
  by (induction xs rule: remdups_adj.induct) auto

lemma distinct_unique: "distinct (unique xs)"
  by (simp add: unique_def distinct_remdups_adj_sorted)

lemma set_unique: "set (unique xs) = set xs"
  by (simp add: unique_def)

lemma set_setdiff1d: "set (setdiff1d a b) = set a - set b"
  by (auto simp: setdiff1d_def Let_def set_unique)

lemma distinct_setdiff1d: "distinct (setdiff1d a b)"
  by (simp add: setdiff1d_def Let_def distinct_unique)

lemma sorted_setdiff1d: "sorted (setdiff1d a b)"
  by (simp add: setdiff1d_def Let_def sorted_unique sorted_wrt_filter)

lemma resample_and_train_drawn:
  assumes "resample_and_train R train ds spec N g = (d, r, g')" "e \<in> set d"
  shows "\<exists>ids g1. random_choice R (df_index ds) N g = Inr (ids, g1)
           \<and> e = (ids, setdiff1d (df_index ds) ids)"
  using assms
  by (auto simp: resample_and_train_def Let_def split: sum.splits prod.splits)

lemma iteration_drawn:
  assumes "iteration R train ds spec N st = (st', ex)" "e \<in> set (drawn st')"
  shows "e \<in> set (drawn st) \<or>
    (\<exists>ids g1. random_choice R (df_index ds) N (rng st) = Inr (ids, g1)
        \<and> e = (ids, setdiff1d (df_index ds) ids))"
proof -
  obtain d r g' where b: "resample_and_train R train ds spec N (rng st) = (d, r, g')"
    by (metis prod_cases3)
  with assms have "drawn st' = drawn st @ d"
    by (auto simp: iteration_def Let_def split: sum.splits)
  with assms(2) have "e \<in> set (drawn st) \<or> e \<in> set d" by auto
  then show ?thesis using resample_and_train_drawn [OF b] by blast
qed

lemma bootstrap_loop_drawn:
  assumes "bootstrap_loop R train ds spec N n st = (st', ex)" "e \<in> set (drawn st')"
  shows "e \<in> set (drawn st) \<or>
    (\<exists>ids g g1. random_choice R (df_index ds) N g = Inr (ids, g1)
        \<and> e = (ids, setdiff1d (df_index ds) ids))"
  using assms
proof (induction n arbitrary: st)
  case 0
  then show ?case by simp
next
  case (Suc n)
  obtain s1 x1 where it: "iteration R train ds spec N st = (s1, x1)"
    by (cases "iteration R train ds spec N st")
  show ?case
  proof (cases x1)
    case None
    with Suc.prems it have "bootstrap_loop R train ds spec N n s1 = (st', ex)" by simp
    from Suc.IH [OF this Suc.prems(2)] iteration_drawn [OF it] show ?thesis by blast
  next
    case (Some a)
    with Suc.prems it have "s1 = st'" by simp
    with iteration_drawn [OF it] Suc.prems(2) show ?thesis by blast
  qed
qed

subsection \<open>The external calls of the body cannot fail, the training call apart\<close>

lemma loc_ok: "set ids \<subseteq> set (df_index df) \<Longrightarrow> \<exists>d. loc df ids = Inr d"
  by (auto simp: loc_def list_all_iff)

lemma random_choice_ok: "\<exists>ids g1. random_choice R a (length a) g = Inr (ids, g1)"
  by (auto simp: random_choice_def split: prod.splits)

lemma resample_and_train_ok:
  "\<exists>ids g1 df_train df_test.
      random_choice R (df_index ds) (length ds) g = Inr (ids, g1)
    \<and> loc ds ids = Inr df_train
    \<and> loc ds (setdiff1d (df_index ds) ids) = Inr df_test
    \<and> resample_and_train R train ds spec (length ds) g =
        ([(ids, setdiff1d (df_index ds) ids)],
         train (lgb_Dataset (drop_choice df_train) (choice_column df_train) False) spec
           [lgb_Dataset (drop_choice df_test) (choice_column df_test) False] g1)"
proof -
  have "length (df_index ds) = length ds" by (simp add: df_index_def)
  with random_choice_ok [of R "df_index ds" g]
  obtain ids g1 where c: "random_choice R (df_index ds) (length ds) g = Inr (ids, g1)"
    by auto
  from loc_ok [OF random_choice_subset [OF c]] obtain df_train where
    t: "loc ds ids = Inr df_train" by blast
  have "set (setdiff1d (df_index ds) ids) \<subseteq> set (df_index ds)"
    by (auto simp: set_setdiff1d)
  from loc_ok [OF this] obtain df_test where
    v: "loc ds (setdiff1d (df_index ds) ids) = Inr df_test" by blast
  show ?thesis
    using c t v by (auto simp: resample_and_train_def Let_def split: prod.splits)
qed

lemma resample_and_train_one_pair:
  "length (fst (resample_and_train R train ds spec (length ds) g)) = 1"
  using resample_and_train_ok [of R ds g train spec] by auto

lemma resample_and_train_total:
  assumes "\<forall>d s v g. \<exists>m g'. train d s v g = (Inr m, g')"
  shows "\<exists>m. fst (snd (resample_and_train R train ds spec (length ds) g)) = Inr m"
proof -
  from resample_and_train_ok [of R ds g train spec]
  obtain ids g1 df_train df_test where
    r: "resample_and_train R train ds spec (length ds) g =
        ([(ids, setdiff1d (df_index ds) ids)],
         train (lgb_Dataset (drop_choice df_train) (choice_column df_train) False) spec
           [lgb_Dataset (drop_choice df_test) (choice_column df_test) False] g1)"
    by blast
  from assms obtain m g' where
    "train (lgb_Dataset (drop_choice df_train) (choice_column df_train) False) spec
           [lgb_Dataset (drop_choice df_test) (choice_column df_test) False] g1 = (Inr m, g')"
    by blast
  with r show ?thesis by simp
qed


lemma gen_after_shift:
  "gen_after R train ds spec N g (Suc i) =
   gen_after R train ds spec N (snd (snd (resample_and_train R train ds spec N g))) i"
  by (induction i) simp_all

lemma upt_Suc_shift: "[0..<Suc n] = 0 # map Suc [0..<n]"
  by (simp add: upt_conv_Cons map_Suc_upt del: upt_Suc)

lemma bootstrap_loop_success:
  assumes "\<forall>i<n. \<exists>m. fst (snd (resample_and_train R train ds spec N
              (gen_after R train ds spec N (rng st) i))) = Inr m"
  shows "bootstrap_loop R train ds spec N n st =
     (st\<lparr>rng := gen_after R train ds spec N (rng st) n,
         drawn := drawn st @ concat (map (\<lambda>i. fst (resample_and_train R train ds spec N
              (gen_after R train ds spec N (rng st) i))) [0..<n]),
         models := models st @ map (\<lambda>i. projr (fst (snd (resample_and_train R train ds spec N
              (gen_after R train ds spec N (rng st) i))))) [0..<n]\<rparr>,
      None)"
  using assms
proof (induction n arbitrary: st)
  case 0
  then show ?case by simp
next
  case (Suc n)
  let ?body = "resample_and_train R train ds spec N"
  obtain d r g' where b: "?body (rng st) = (d, r, g')" by (metis prod_cases3)
  from Suc.prems have "\<exists>m. fst (snd (?body (gen_after R train ds spec N (rng st) 0))) = Inr m"
    by blast
  with b obtain m where r: "r = Inr m" by auto
  define st' where "st' = st\<lparr>rng := g', drawn := drawn st @ d, models := models st @ [m]\<rparr>"
  have it: "iteration R train ds spec N st = (st', None)"
    by (simp add: iteration_def b r st'_def Let_def)
  have sh: "gen_after R train ds spec N (rng st') i = gen_after R train ds spec N (rng st) (Suc i)" for i
    by (simp only: gen_after_shift) (simp add: st'_def b)
  have pre: "\<forall>i<n. \<exists>m. fst (snd (?body (gen_after R train ds spec N (rng st') i))) = Inr m"
    using Suc.prems by (simp only: sh) auto
  have l: "bootstrap_loop R train ds spec N (Suc n) st = bootstrap_loop R train ds spec N n st'"
    by (simp add: it)
  show ?case
    unfolding l Suc.IH [OF pre] sh upt_Suc_shift
    by (simp add: st'_def b r comp_def)
qed

lemma bootstrap_loop_failure:
  assumes "\<forall>i<j. \<exists>m. fst (snd (resample_and_train R train ds spec N
              (gen_after R train ds spec N (rng st) i))) = Inr m"
    and "fst (snd (resample_and_train R train ds spec N
              (gen_after R train ds spec N (rng st) j))) = Inl e"
    and "j < n"
  shows "bootstrap_loop R train ds spec N n st =
     (st\<lparr>rng := gen_after R train ds spec N (rng st) (Suc j),
         drawn := drawn st @ concat (map (\<lambda>i. fst (resample_and_train R train ds spec N
              (gen_after R train ds spec N (rng st) i))) [0..<Suc j]),
         models := models st @ map (\<lambda>i. projr (fst (snd (resample_and_train R train ds spec N
              (gen_after R train ds spec N (rng st) i))))) [0..<j]\<rparr>,
      Some e)"
  using assms
proof (induction n arbitrary: st j)
  case 0
  then show ?case by simp
next
  case (Suc n)
  let ?body = "resample_and_train R train ds spec N"
  obtain d r g' where b: "?body (rng st) = (d, r, g')" by (metis prod_cases3)
  show ?case
  proof (cases j)
    case 0
    with Suc.prems(2) b have r: "r = Inl e" by simp
    have "iteration R train ds spec N st = (st\<lparr>rng := g', drawn := drawn st @ d\<rparr>, Some e)"
      by (simp add: iteration_def b r Let_def)
    then show ?thesis by (simp add: 0 b)
  next
    case (Suc j')
    from Suc.prems(1) Suc have "\<exists>m. fst (snd (?body (gen_after R train ds spec N (rng st) 0))) = Inr m"
      by blast
    with b obtain m where r: "r = Inr m" by auto
    define st' where "st' = st\<lparr>rng := g', drawn := drawn st @ d, models := models st @ [m]\<rparr>"
    have it: "iteration R train ds spec N st = (st', None)"
      by (simp add: iteration_def b r st'_def Let_def)
    have sh: "gen_after R train ds spec N (rng st') i = gen_after R train ds spec N (rng st) (Suc i)" for i
      by (simp only: gen_after_shift) (simp add: st'_def b)
    have pre: "\<forall>i<j'. \<exists>m. fst (snd (?body (gen_after R train ds spec N (rng st') i))) = Inr m"
      using Suc.prems(1) Suc by (simp only: sh) auto
    have pre2: "fst (snd (?body (gen_after R train ds spec N (rng st') j'))) = Inl e"
      using Suc.prems(2) Suc by (simp only: sh) 
    have lt: "j' < n" using Suc.prems(3) Suc by simp
    have l: "bootstrap_loop R train ds spec N (Suc n) st = bootstrap_loop R train ds spec N n st'"
      by (simp add: it)
    have u1: "[0..<Suc j] = 0 # map Suc [0..<Suc j']" unfolding Suc by (rule upt_Suc_shift)
    have u2: "[0..<j] = 0 # map Suc [0..<j']" unfolding Suc by (rule upt_Suc_shift)
    show ?thesis
      unfolding l Suc.IH [OF pre pre2 lt] sh u1 u2
      by (simp add: st'_def b r comp_def Suc)
  qed
qed

subsection \<open>A run, iteration by iteration\<close>

lemma length_concat_singletons:
  "(\<And>i. length (f i) = 1) \<Longrightarrow> length (concat (map f [0..<n])) = n"
  by (induction n) simp_all

lemma np_random_seed_accepts:
  "0 \<le> seed \<Longrightarrow> seed < 2 ^ 32 \<Longrightarrow> np_random_seed R seed g0 = Inr (seed_state R seed)"
  by (simp add: np_random_seed_def)

lemma np_random_seed_rejects:
  "\<not> (0 \<le> seed \<and> seed < 2 ^ 32) \<Longrightarrow> np_random_seed R seed g0 = Inl ValueError"
  by (simp add: np_random_seed_def)

lemma bootstrap_run_rejected_seed:
  "\<not> (0 \<le> seed \<and> seed < 2 ^ 32) \<Longrightarrow>
   bootstrap_run R train ds spec k seed g0 =
     (\<lparr>rng = g0, models = [], drawn = []\<rparr>, Some ValueError)"
  by (simp add: bootstrap_run_def np_random_seed_rejects)

lemma bootstrap_run_accepted_seed:
  "0 \<le> seed \<Longrightarrow> seed < 2 ^ 32 \<Longrightarrow>
   bootstrap_run R train ds spec k seed g0 =
     bootstrap_loop R train ds spec (length ds) (nat k)
       \<lparr>rng = seed_state R seed, models = [], drawn = []\<rparr>"
  by (simp add: bootstrap_run_def np_random_seed_accepts)

lemma gen_before_0: "gen_before R train ds spec seed 0 = seed_state R seed"
  by (simp add: gen_before_def)

lemma gen_before_Suc:
  "gen_before R train ds spec seed (Suc i) =
     snd (snd (resample_and_train R train ds spec (length ds) (gen_before R train ds spec seed i)))"
  by (simp add: gen_before_def)

lemma resampled_in_fun:
  "resampled_in R train ds spec seed =
     (\<lambda>i. fst (resample_and_train R train ds spec (length ds)
            (gen_after R train ds spec (length ds) (seed_state R seed) i)))"
  by (rule ext) (simp add: resampled_in_def gen_before_def)

lemma bootstrap_run_success:
  fixes train :: "('g, 'f, 'c, 's, 'm) trainer"
  assumes "0 \<le> seed" and "seed < 2 ^ 32"
    and "\<forall>i<nat k. \<exists>m. trained_in R train ds spec seed i = Inr m"
  shows "bootstrap_run R train ds spec k seed g0 =
     (\<lparr>rng = gen_before R train ds spec seed (nat k),
       models = map (\<lambda>i. projr (trained_in R train ds spec seed i)) [0..<nat k],
       drawn = concat (map (resampled_in R train ds spec seed) [0..<nat k])\<rparr>, None)"
proof -
  let ?st = "\<lparr>rng = seed_state R seed, models = [], drawn = []\<rparr> :: ('g, 'm) run_state"
  have "\<forall>i<nat k. \<exists>m. fst (snd (resample_and_train R train ds spec (length ds)
              (gen_after R train ds spec (length ds) (rng ?st) i))) = Inr m"
    using assms(3) by (simp add: trained_in_def gen_before_def)
  from bootstrap_loop_success [OF this]
  show ?thesis
    by (simp add: bootstrap_run_accepted_seed [OF assms(1,2)] trained_in_def resampled_in_fun
        gen_before_def)
qed

lemma bootstrap_run_failure:
  fixes train :: "('g, 'f, 'c, 's, 'm) trainer"
  assumes "0 \<le> seed" and "seed < 2 ^ 32"
    and "\<forall>i<j. \<exists>m. trained_in R train ds spec seed i = Inr m"
    and "trained_in R train ds spec seed j = Inl e"
    and "j < nat k"
  shows "bootstrap_run R train ds spec k seed g0 =
     (\<lparr>rng = gen_before R train ds spec seed (Suc j),
       models = map (\<lambda>i. projr (trained_in R train ds spec seed i)) [0..<j],
       drawn = concat (map (resampled_in R train ds spec seed) [0..<Suc j])\<rparr>, Some e)"
proof -
  let ?st = "\<lparr>rng = seed_state R seed, models = [], drawn = []\<rparr> :: ('g, 'm) run_state"
  have 1: "\<forall>i<j. \<exists>m. fst (snd (resample_and_train R train ds spec (length ds)
              (gen_after R train ds spec (length ds) (rng ?st) i))) = Inr m"
    using assms(3) by (simp add: trained_in_def gen_before_def)
  have 2: "fst (snd (resample_and_train R train ds spec (length ds)
              (gen_after R train ds spec (length ds) (rng ?st) j))) = Inl e"
    using assms(4) by (simp add: trained_in_def gen_before_def)
  from bootstrap_loop_failure [OF 1 2 assms(5)]
  show ?thesis
    by (simp add: bootstrap_run_accepted_seed [OF assms(1,2)] trained_in_def resampled_in_fun
        gen_before_def)
qed

lemma resampled_in_one: "length (resampled_in R train ds spec seed i) = 1"
  by (simp add: resampled_in_def resample_and_train_one_pair)

text \<open>The outcome of an iteration is the outcome of its training call.\<close>

lemma trained_in_is_training_call:
  "\<exists>d v g. trained_in R train ds spec seed i = fst (train d spec v g)"
proof -
  from resample_and_train_ok [of R ds "gen_before R train ds spec seed i" train spec]
  obtain ids g1 df_train df_test where
    "resample_and_train R train ds spec (length ds) (gen_before R train ds spec seed i) =
        ([(ids, setdiff1d (df_index ds) ids)],
         train (lgb_Dataset (drop_choice df_train) (choice_column df_train) False) spec
           [lgb_Dataset (drop_choice df_test) (choice_column df_test) False] g1)"
    by blast
  then have "trained_in R train ds spec seed i =
      fst (train (lgb_Dataset (drop_choice df_train) (choice_column df_train) False) spec
           [lgb_Dataset (drop_choice df_test) (choice_column df_test) False] g1)"
    by (simp add: trained_in_def)
  then show ?thesis by blast
qed

text \<open>
  Every run is of one of three kinds: the seed is rejected; every iteration trains its
  model; or some iteration is the first whose training call raises.
\<close>

lemma bootstrap_run_cases:
  fixes train :: "('g, 'f, 'c, 's, 'm) trainer"
  obtains
    (rejected) "\<not> (0 \<le> seed \<and> seed < 2 ^ 32)"
  | (success) "0 \<le> seed" "seed < 2 ^ 32"
      "\<forall>i<nat k. \<exists>m. trained_in R train ds spec seed i = Inr m"
  | (failure) j e where "0 \<le> seed" "seed < 2 ^ 32"
      "\<forall>i<j. \<exists>m. trained_in R train ds spec seed i = Inr m"
      "trained_in R train ds spec seed j = Inl e" "j < nat k"
proof (cases "0 \<le> seed \<and> seed < 2 ^ 32")
  case False
  then show ?thesis by (rule rejected)
next
  case True
  then have s: "0 \<le> seed" "seed < 2 ^ 32" by simp_all
  show ?thesis
  proof (cases "\<forall>i<nat k. \<exists>m. trained_in R train ds spec seed i = Inr m")
    case True
    with s show ?thesis by (rule success)
  next
    case False
    then have "\<exists>i. i < nat k \<and> (\<exists>e. trained_in R train ds spec seed i = Inl e)"
      by (metis sum.exhaust)
    then obtain j where j: "j < nat k \<and> (\<exists>e. trained_in R train ds spec seed j = Inl e)"
      and least: "\<forall>i<j. \<not> (i < nat k \<and> (\<exists>e. trained_in R train ds spec seed i = Inl e))"
      using exists_least_iff
        [of "\<lambda>i. i < nat k \<and> (\<exists>e. trained_in R train ds spec seed i = Inl e)"]
      by blast
    from j obtain e where e: "trained_in R train ds spec seed j = Inl e" by blast
    have ok: "\<forall>i<j. \<exists>m. trained_in R train ds spec seed i = Inr m"
    proof (intro allI impI)
      fix i assume "i < j"
      with least j have "\<not> (\<exists>e. trained_in R train ds spec seed i = Inl e)" by auto
      then show "\<exists>m. trained_in R train ds spec seed i = Inr m"
        by (cases "trained_in R train ds spec seed i") auto
    qed
    from j have lt: "j < nat k" by blast
    from s ok e lt show ?thesis by (rule failure)
  qed
qed

lemma bootstrap_run_drawn:
  fixes train :: "('g, 'f, 'c, 's, 'm) trainer"
  shows "drawn (fst (bootstrap_run R train ds spec k seed g0)) =
     concat (map (resampled_in R train ds spec seed)
       [0..<length (drawn (fst (bootstrap_run R train ds spec k seed g0)))])"
proof (cases rule: bootstrap_run_cases
    [where seed = seed and k = k and R = R and train = train and ds = ds and spec = spec])
  case rejected
  then show ?thesis by (simp add: bootstrap_run_rejected_seed)
next
  case success
  show ?thesis
    by (simp add: bootstrap_run_success [OF success] length_concat_singletons resampled_in_one
        del: upt_Suc)
next
  case (failure j e)
  show ?thesis
    by (simp add: bootstrap_run_failure [OF failure] length_concat_singletons resampled_in_one
        del: upt_Suc)
qed

text \<open>The state of the generator before the call shows in the final state of a run only.\<close>

lemma bootstrap_run_ambient:
  fixes train :: "('g, 'f, 'c, 's, 'm) trainer"
  shows "drawn (fst (bootstrap_run R train ds spec k seed g0))
           = drawn (fst (bootstrap_run R train ds spec k seed g0'))"
    and "models (fst (bootstrap_run R train ds spec k seed g0))
           = models (fst (bootstrap_run R train ds spec k seed g0'))"
    and "snd (bootstrap_run R train ds spec k seed g0)
           = snd (bootstrap_run R train ds spec k seed g0')"
    and "0 \<le> seed \<and> seed < 2 ^ 32 \<longrightarrow>
         bootstrap_run R train ds spec k seed g0 = bootstrap_run R train ds spec k seed g0'"
  by (cases "0 \<le> seed \<and> seed < 2 ^ 32";
      simp add: bootstrap_run_rejected_seed bootstrap_run_accepted_seed)+

subsection \<open>The concrete run, evaluated\<close>

lemma draw_positions_numeral:
  "draw_positions R bound (numeral k) g =
     (case next_raw R g of (x, g1) \<Rightarrow>
        (case draw_positions R bound (pred_numeral k) g1 of
           (ps, g2) \<Rightarrow> ((x mod bound) # ps, g2)))"
  by (simp add: numeral_eq_Suc)

lemma bootstrap_loop_numeral:
  "bootstrap_loop R train dataset model_specification N (numeral k) st =
     (case iteration R train dataset model_specification N st of
        (st', Some e) \<Rightarrow> (st', Some e)
      | (st', None) \<Rightarrow>
          bootstrap_loop R train dataset model_specification N (pred_numeral k) st')"
  by (simp add: numeral_eq_Suc)

lemma demo_choice_1:
  "random_choice demo_random [10, 11, 12] 3 42 = Inr ([10, 11, 11], 1147)"
  by (simp add: random_choice_def demo_random_def draw_positions_numeral)

lemma demo_choice_2:
  "random_choice demo_random [10, 11, 12] 3 1147 = Inr ([11, 11, 11], 30982)"
  by (simp add: random_choice_def demo_random_def draw_positions_numeral)

lemma demo_setdiff_1: "setdiff1d [10, 11, 12] [10, 11, 11] = [12]"
  by (simp add: setdiff1d_def unique_def)

lemma demo_setdiff_2: "setdiff1d [10, 11, 12] [11, 11, 11] = [10, 12]"
  by (simp add: setdiff1d_def unique_def)

lemma demo_body_1:
  "resample_and_train demo_random demo_train demo_dataset () 3 42
     = ([([10, 11, 11], [12])], Inr (3, 1), 1147)"
  by (simp add: resample_and_train_def df_index_def demo_dataset_def demo_choice_1
      demo_setdiff_1 loc_def drop_choice_def choice_column_def lgb_Dataset_def demo_train_def)

lemma demo_body_2:
  "resample_and_train demo_random demo_train demo_dataset () 3 1147
     = ([([11, 11, 11], [10, 12])], Inr (3, 2), 30982)"
  by (simp add: resample_and_train_def df_index_def demo_dataset_def demo_choice_2
      demo_setdiff_2 loc_def drop_choice_def choice_column_def lgb_Dataset_def demo_train_def)

lemma demo_seed_accepted: "(0 :: int) \<le> 42" "(42 :: int) < 2 ^ 32"
  by simp_all

lemma demo_seed_rejected: "\<not> (0 \<le> (- 1 :: int) \<and> (- 1 :: int) < 2 ^ 32)"
  by simp

lemma demo_run:
  "bootstrap_run demo_random demo_train demo_dataset () 2 42 g0 =
     (\<lparr>rng = 30982, models = [(3, 1), (3, 2)],
       drawn = [([10, 11, 11], [12]), ([11, 11, 11], [10, 12])]\<rparr>, None)"
proof -
  have n: "length demo_dataset = 3" by (simp add: demo_dataset_def)
  have s: "seed_state demo_random 42 = 42" by (simp add: demo_random_def)
  show ?thesis
    unfolding bootstrap_run_accepted_seed [OF demo_seed_accepted]
    by (simp add: n s bootstrap_loop_numeral iteration_def demo_body_1 demo_body_2)
qed

lemma demo_run_rejected:
  "bootstrap_run demo_random demo_train demo_dataset () 2 (- 1) g0 =
     (\<lparr>rng = g0, models = [], drawn = []\<rparr>, Some ValueError)"
  by (rule bootstrap_run_rejected_seed [OF demo_seed_rejected])

lemma demo_length: "length demo_dataset = 3"
  by (simp add: demo_dataset_def)

lemma demo_gen_0: "gen_before demo_random train demo_dataset () 42 0 = 42"
  by (simp add: gen_before_0 demo_random_def)

lemma demo_gen_1: "gen_before demo_random demo_train demo_dataset () 42 (Suc 0) = 1147"
  by (simp add: gen_before_Suc demo_gen_0 demo_length demo_body_1)

lemma demo_trained_0: "trained_in demo_random demo_train demo_dataset () 42 0 = Inr (3, 1)"
  by (simp add: trained_in_def demo_gen_0 demo_length demo_body_1)

lemma demo_trained_1: "trained_in demo_random demo_train demo_dataset () 42 (Suc 0) = Inr (3, 2)"
  by (simp add: trained_in_def demo_gen_1 demo_length demo_body_2)

lemma demo_train_total: "\<forall>d s v g. \<exists>m g'. demo_train d s v g = (Inr m, g')"
  by (simp add: demo_train_def)

lemma demo_bootstrap: "bootstrap demo_random demo_train demo_dataset () 2 42 g0 = Inr [(3, 1), (3, 2)]"
  by (simp add: bootstrap_def demo_run)

lemma demo_bootstrap_rejected:
  "bootstrap demo_random demo_train demo_dataset () 2 (- 1) g0 = Inl ValueError"
  by (simp add: bootstrap_def demo_run_rejected)

lemma demo_failing_body_1:
  "resample_and_train demo_random demo_failing_train demo_dataset () 3 42
     = ([([10, 11, 11], [12])], Inr (3, 1), 1147)"
  by (simp add: resample_and_train_def df_index_def demo_dataset_def demo_choice_1
      demo_setdiff_1 loc_def drop_choice_def choice_column_def lgb_Dataset_def
      demo_failing_train_def demo_train_def)

lemma demo_failing_body_2:
  "resample_and_train demo_random demo_failing_train demo_dataset () 3 1147
     = ([([11, 11, 11], [10, 12])], Inl (LibraryError ''diverged''), 30982)"
  by (simp add: resample_and_train_def df_index_def demo_dataset_def demo_choice_2
      demo_setdiff_2 loc_def drop_choice_def choice_column_def lgb_Dataset_def
      demo_failing_train_def demo_train_def)

lemma demo_failing_trained_0:
  "trained_in demo_random demo_failing_train demo_dataset () 42 0 = Inr (3, 1)"
  by (simp add: trained_in_def demo_gen_0 demo_length demo_failing_body_1)

lemma demo_failing_trained_1:
  "trained_in demo_random demo_failing_train demo_dataset () 42 (Suc 0)
     = Inl (LibraryError ''diverged'')"
  by (simp add: trained_in_def gen_before_Suc demo_gen_0 demo_length demo_failing_body_1
      demo_failing_body_2)

lemma demo_failing_bootstrap:
  "bootstrap demo_random demo_failing_train demo_dataset () 3 42 g0
     = Inl (LibraryError ''diverged'')"
proof -
  have a: "\<forall>i<Suc 0. \<exists>m. trained_in demo_random demo_failing_train demo_dataset () 42 i = Inr m"
    by (simp add: demo_failing_trained_0)
  have lt: "Suc 0 < nat 3" by simp
  show ?thesis
    by (simp add: bootstrap_def
        bootstrap_run_failure [OF demo_seed_accepted a demo_failing_trained_1 lt])
qed

subsection \<open>C1: the resample and its complement\<close>

text \<open>
  C1. In every iteration of \<^verbatim>\<open>bootstrap(dataset, model_specification, num_it, seed)\<close>,
  whatever the generator, the trainer and the state of the process: the resampled
  identifiers \<^verbatim>\<open>ids\<close>, as a multiset, have as many entries as the dataset has rows, and
  the complement \<^verbatim>\<open>ids2\<close> holds exactly the identifiers of the dataset's index that occur
  zero times in \<^verbatim>\<open>ids\<close>, each once, in increasing order.
\<close>

theorem bootstrap_resample_and_complement:
  assumes "(ids, ids2) \<in>
    set (drawn (fst (bootstrap_run R train dataset model_specification num_it seed g0)))"
  shows "size (mset ids) = length dataset
       \<and> set ids2 = {r \<in> set (df_index dataset). count (mset ids) r = 0}
       \<and> distinct ids2 \<and> sorted ids2"
proof -
  have seed: "0 \<le> seed" "seed < 2 ^ 32"
    using assms by (cases "0 \<le> seed \<and> seed < 2 ^ 32"; simp add: bootstrap_run_rejected_seed)+
  obtain st ex where
    run: "bootstrap_run R train dataset model_specification num_it seed g0 = (st, ex)"
    by (cases "bootstrap_run R train dataset model_specification num_it seed g0")
  then have "bootstrap_loop R train dataset model_specification (length dataset) (nat num_it)
       \<lparr>rng = seed_state R seed, models = [], drawn = []\<rparr> = (st, ex)"
    by (simp add: bootstrap_run_accepted_seed [OF seed])
  from bootstrap_loop_drawn [OF this, of "(ids, ids2)"] assms run
  obtain g g1 where
    c: "random_choice R (df_index dataset) (length dataset) g = Inr (ids, g1)"
    and d: "ids2 = setdiff1d (df_index dataset) ids"
    by auto
  have "length ids = length dataset" using random_choice_length [OF c] .
  moreover have "set ids2 = {r \<in> set (df_index dataset). count (mset ids) r = 0}"
    by (auto simp: d set_setdiff1d count_eq_zero_iff)
  ultimately show ?thesis by (simp add: d distinct_setdiff1d sorted_setdiff1d)
qed

theorem bootstrap_resample_and_complement_witness:
  "([11, 11, 11], [10, 12]) \<in>
     set (drawn (fst (bootstrap_run demo_random demo_train demo_dataset () 2 42 7)))
   \<and> size (mset [11, 11, 11 :: int]) = length demo_dataset
   \<and> set [10, 12] = {r \<in> set (df_index demo_dataset). count (mset [11, 11, 11]) r = 0}
   \<and> distinct [10, 12 :: int] \<and> sorted [10, 12 :: int]"
proof -
  have h: "([11, 11, 11], [10, 12]) \<in>
     set (drawn (fst (bootstrap_run demo_random demo_train demo_dataset () 2 42 7)))"
    by (simp add: demo_run)
  show ?thesis using h bootstrap_resample_and_complement [OF h] by blast
qed

subsection \<open>C2: one model per iteration, in order\<close>

text \<open>
  C2, as stated, is for every seed: for every labelled dataset, model specification,
  seed and iteration count \<open>k \<ge> 0\<close>, \<^verbatim>\<open>bootstrap\<close> with \<^verbatim>\<open>num_it = k\<close> returns a list of
  exactly \<open>k\<close> models. It fails at the seed \<open>-1\<close>: \<^verbatim>\<open>np.random.seed\<close> raises ValueError
  before the loop, with a trainer that never raises. It fails as well, at the seed 42,
  when the training call of the second of three iterations raises: no list is returned.
\<close>

theorem bootstrap_returns_models_counterexample:
  "(\<forall>d s v g. \<exists>m g'. demo_train d s v g = (Inr m, g'))
   \<and> bootstrap demo_random demo_train demo_dataset () 2 (- 1) 7 = Inl ValueError
   \<and> \<not> (\<exists>ms. bootstrap demo_random demo_train demo_dataset () 2 (- 1) 7 = Inr ms
            \<and> int (length ms) = 2)
   \<and> bootstrap demo_random demo_failing_train demo_dataset () 3 42 7
        = Inl (LibraryError ''diverged'')
   \<and> \<not> (\<exists>ms. bootstrap demo_random demo_failing_train demo_dataset () 3 42 7 = Inr ms
            \<and> int (length ms) = 3)"
  by (simp add: demo_bootstrap_rejected demo_failing_bootstrap demo_train_def)

text \<open>
  C2, amended. For every labelled dataset, model specification, iteration count
  \<open>k \<ge> 0\<close> and seed that numpy accepts (from 0 to \<open>2\<^sup>3\<^sup>2 - 1\<close>), when no training call of
  the run raises, \<^verbatim>\<open>bootstrap\<close> with \<^verbatim>\<open>num_it = k\<close> returns a list of exactly \<open>k\<close> models, and
  the model at position \<open>i\<close> is the one trained in iteration \<open>i\<close>. For any other seed it
  raises ValueError. The outcome of an iteration is the outcome of its training call: no
  other call of the loop body can raise.
\<close>

theorem bootstrap_returns_models_in_order:
  "(0 \<le> seed \<and> seed < 2 ^ 32 \<and> 0 \<le> k
      \<and> (\<forall>i<nat k. \<exists>m. trained_in R train dataset model_specification seed i = Inr m)
     \<longrightarrow> (\<exists>ms. bootstrap R train dataset model_specification k seed g0 = Inr ms
            \<and> int (length ms) = k
            \<and> (\<forall>i<length ms.
                  trained_in R train dataset model_specification seed i = Inr (ms ! i))))
   \<and> (\<not> (0 \<le> seed \<and> seed < 2 ^ 32)
     \<longrightarrow> bootstrap R train dataset model_specification k seed g0 = Inl ValueError)
   \<and> (\<exists>d v g. trained_in R train dataset model_specification seed i
                 = fst (train d model_specification v g))"
proof (intro conjI impI)
  assume a: "0 \<le> seed \<and> seed < 2 ^ 32 \<and> 0 \<le> k
      \<and> (\<forall>i<nat k. \<exists>m. trained_in R train dataset model_specification seed i = Inr m)"
  then have s: "0 \<le> seed" "seed < 2 ^ 32" and k: "0 \<le> k"
    and ok: "\<forall>i<nat k. \<exists>m. trained_in R train dataset model_specification seed i = Inr m"
    by simp_all
  have "bootstrap R train dataset model_specification k seed g0
      = Inr (map (\<lambda>i. projr (trained_in R train dataset model_specification seed i)) [0..<nat k])"
    by (simp add: bootstrap_def bootstrap_run_success [OF s ok])
  moreover have "trained_in R train dataset model_specification seed i
      = Inr (projr (trained_in R train dataset model_specification seed i))" if "i < nat k" for i
    using ok that by auto
  ultimately show "\<exists>ms. bootstrap R train dataset model_specification k seed g0 = Inr ms
            \<and> int (length ms) = k
            \<and> (\<forall>i<length ms.
                  trained_in R train dataset model_specification seed i = Inr (ms ! i))"
    using k by auto
next
  assume "\<not> (0 \<le> seed \<and> seed < 2 ^ 32)"
  then show "bootstrap R train dataset model_specification k seed g0 = Inl ValueError"
    by (simp add: bootstrap_def bootstrap_run_rejected_seed)
next
  show "\<exists>d v g. trained_in R train dataset model_specification seed i
                 = fst (train d model_specification v g)"
    by (rule trained_in_is_training_call)
qed

theorem bootstrap_returns_models_in_order_witness:
  "(0 :: int) \<le> 42 \<and> (42 :: int) < 2 ^ 32 \<and> (0 :: int) \<le> 2
   \<and> trained_in demo_random demo_train demo_dataset () 42 0 = Inr (3, 1)
   \<and> trained_in demo_random demo_train demo_dataset () 42 (Suc 0) = Inr (3, 2)
   \<and> bootstrap demo_random demo_train demo_dataset () 2 42 7 = Inr [(3, 1), (3, 2)]
   \<and> (\<exists>ms. bootstrap demo_random demo_train demo_dataset () 2 42 7 = Inr ms
          \<and> int (length ms) = 2
          \<and> (\<forall>i<length ms. trained_in demo_random demo_train demo_dataset () 42 i = Inr (ms ! i)))
   \<and> \<not> (0 \<le> (- 1 :: int) \<and> (- 1 :: int) < 2 ^ 32)
   \<and> bootstrap demo_random demo_train demo_dataset () 2 (- 1) 7 = Inl ValueError"
proof -
  note t = bootstrap_returns_models_in_order
    [where seed = 42 and k = 2 and R = demo_random and train = demo_train
       and dataset = demo_dataset and model_specification = "()" and ?g0.0 = 7 and i = 0]
  note t' = bootstrap_returns_models_in_order
    [where seed = "- 1" and k = 2 and R = demo_random and train = demo_train
       and dataset = demo_dataset and model_specification = "()" and ?g0.0 = 7 and i = 0]
  have ok: "\<forall>i<nat 2. \<exists>m. trained_in demo_random demo_train demo_dataset () 42 i = Inr m"
  proof (intro allI impI)
    fix i :: nat assume "i < nat 2"
    then have "i = 0 \<or> i = Suc 0" by auto
    then show "\<exists>m. trained_in demo_random demo_train demo_dataset () 42 i = Inr m"
      using demo_trained_0 demo_trained_1 by auto
  qed
  have z: "(0 :: int) \<le> 2" by simp
  have e: "\<exists>ms. bootstrap demo_random demo_train demo_dataset () 2 42 7 = Inr ms
          \<and> int (length ms) = 2
          \<and> (\<forall>i<length ms. trained_in demo_random demo_train demo_dataset () 42 i = Inr (ms ! i))"
    using t [THEN conjunct1] demo_seed_accepted z ok by blast
  have r: "bootstrap demo_random demo_train demo_dataset () 2 (- 1) 7 = Inl ValueError"
    using t' [THEN conjunct2, THEN conjunct1] demo_seed_rejected by blast
  show ?thesis
    by (intro conjI)
      (rule demo_seed_accepted z demo_trained_0 demo_trained_1 demo_bootstrap e
        demo_seed_rejected r)+
qed

subsection \<open>C8: an exception of the training call\<close>

text \<open>
  C8. If the training call raises \<open>e\<close> in iteration \<open>j\<close> of a call (the seed having been
  accepted and the iterations before it having trained their models) and \<open>j\<close> is below
  \<^verbatim>\<open>num_it\<close>, then \<^verbatim>\<open>bootstrap\<close> ends with the exception \<open>e\<close> and returns nothing: the \<open>j\<close>
  models trained so far are in the local list only, iteration \<open>j\<close> is the last one begun
  and it is begun once.
\<close>

theorem bootstrap_training_error_propagates:
  assumes "0 \<le> seed" and "seed < 2 ^ 32"
    and "\<forall>i<j. \<exists>m. trained_in R train dataset model_specification seed i = Inr m"
    and "trained_in R train dataset model_specification seed j = Inl e"
    and "int j < num_it"
  shows "bootstrap R train dataset model_specification num_it seed g0 = Inl e
       \<and> length (models (fst (bootstrap_run R train dataset model_specification num_it seed g0))) = j
       \<and> length (drawn (fst (bootstrap_run R train dataset model_specification num_it seed g0))) = Suc j"
proof -
  from assms(5) have lt: "j < nat num_it" by simp
  show ?thesis
    by (simp add: bootstrap_def bootstrap_run_failure [OF assms(1-4) lt]
        length_concat_singletons resampled_in_one del: upt_Suc)
qed

theorem bootstrap_training_error_propagates_witness:
  "(0 :: int) \<le> 42 \<and> (42 :: int) < 2 ^ 32
   \<and> trained_in demo_random demo_failing_train demo_dataset () 42 0 = Inr (3, 1)
   \<and> trained_in demo_random demo_failing_train demo_dataset () 42 (Suc 0)
       = Inl (LibraryError ''diverged'')
   \<and> int (Suc 0) < 3
   \<and> bootstrap demo_random demo_failing_train demo_dataset () 3 42 7
       = Inl (LibraryError ''diverged'')
   \<and> length (models (fst (bootstrap_run demo_random demo_failing_train demo_dataset () 3 42 7)))
       = Suc 0
   \<and> length (drawn (fst (bootstrap_run demo_random demo_failing_train demo_dataset () 3 42 7)))
       = Suc (Suc 0)"
proof -
  have a: "\<forall>i<Suc 0. \<exists>m. trained_in demo_random demo_failing_train demo_dataset () 42 i = Inr m"
    by (simp add: demo_failing_trained_0)
  have b: "int (Suc 0) < 3" by simp
  note t = bootstrap_training_error_propagates
    [OF demo_seed_accepted a demo_failing_trained_1 b, of 7]
  show ?thesis
    by (intro conjI)
      (rule demo_seed_accepted demo_failing_trained_0 demo_failing_trained_1 b
        t [THEN conjunct1] t [THEN conjunct2, THEN conjunct1]
        t [THEN conjunct2, THEN conjunct2])+
qed

subsection \<open>C3: one seeding, one stream of resamples\<close>

text \<open>
  C3. The resampling of \<^verbatim>\<open>bootstrap\<close> is deterministic. Two calls with the same inputs and
  the same seed, started with the shared generator in any two states \<open>g0\<close> and \<open>g0'\<close>,
  draw the same resamples in the same order, train the same models and end alike; when
  the seed is accepted they make the same run altogether (a rejected seed leaves the
  generator in the state it had, and nothing is drawn). The generator is seeded once:
  iteration 0 starts in the seeded state, iteration \<open>i + 1\<close> starts in the state that
  iteration \<open>i\<close> left, and the resamples of a run are those drawn in these states.
\<close>

theorem bootstrap_resampling_deterministic:
  "drawn (fst (bootstrap_run R train dataset model_specification num_it seed g0))
     = drawn (fst (bootstrap_run R train dataset model_specification num_it seed g0'))
   \<and> models (fst (bootstrap_run R train dataset model_specification num_it seed g0))
     = models (fst (bootstrap_run R train dataset model_specification num_it seed g0'))
   \<and> snd (bootstrap_run R train dataset model_specification num_it seed g0)
     = snd (bootstrap_run R train dataset model_specification num_it seed g0')
   \<and> bootstrap R train dataset model_specification num_it seed g0
     = bootstrap R train dataset model_specification num_it seed g0'
   \<and> (0 \<le> seed \<and> seed < 2 ^ 32 \<longrightarrow>
       bootstrap_run R train dataset model_specification num_it seed g0
         = bootstrap_run R train dataset model_specification num_it seed g0')
   \<and> gen_before R train dataset model_specification seed 0 = seed_state R seed
   \<and> gen_before R train dataset model_specification seed (Suc i) =
       snd (snd (resample_and_train R train dataset model_specification (length dataset)
         (gen_before R train dataset model_specification seed i)))
   \<and> drawn (fst (bootstrap_run R train dataset model_specification num_it seed g0)) =
       concat (map (resampled_in R train dataset model_specification seed)
         [0..<length (drawn (fst (bootstrap_run R train dataset model_specification num_it seed g0)))])"
proof -
  note amb = bootstrap_run_ambient
    [where R = R and train = train and ds = dataset and spec = model_specification
       and k = num_it and seed = seed and ?g0.0 = g0 and g0' = g0']
  have b: "bootstrap R train dataset model_specification num_it seed g0
     = bootstrap R train dataset model_specification num_it seed g0'"
  proof (cases "0 \<le> seed \<and> seed < 2 ^ 32")
    case True
    with amb(4) show ?thesis by (simp add: bootstrap_def)
  next
    case False
    then show ?thesis by (simp add: bootstrap_def bootstrap_run_rejected_seed)
  qed
  show ?thesis
    by (intro conjI)
      (rule amb b gen_before_0 gen_before_Suc bootstrap_run_drawn)+
qed

theorem bootstrap_resampling_deterministic_witness:
  "bootstrap_run demo_random demo_train demo_dataset () 2 42 7
     = bootstrap_run demo_random demo_train demo_dataset () 2 42 99
   \<and> gen_before demo_random demo_train demo_dataset () 42 0 = seed_state demo_random 42
   \<and> gen_before demo_random demo_train demo_dataset () 42 (Suc 0) =
       snd (snd (resample_and_train demo_random demo_train demo_dataset () (length demo_dataset)
         (gen_before demo_random demo_train demo_dataset () 42 0)))
   \<and> drawn (fst (bootstrap_run demo_random demo_train demo_dataset () 2 42 7)) =
       concat (map (resampled_in demo_random demo_train demo_dataset () 42)
         [0..<length (drawn (fst (bootstrap_run demo_random demo_train demo_dataset () 2 42 7)))])
   \<and> drawn (fst (bootstrap_run demo_random demo_train demo_dataset () 2 42 99)) =
       [([10, 11, 11], [12]), ([11, 11, 11], [10, 12])]
   \<and> bootstrap demo_random demo_train demo_dataset () 2 (- 1) 7
       = bootstrap demo_random demo_train demo_dataset () 2 (- 1) 99"
proof -
  note t = bootstrap_resampling_deterministic
    [where R = demo_random and train = demo_train and dataset = demo_dataset
       and model_specification = "()" and num_it = 2 and seed = 42
       and ?g0.0 = 7 and g0' = 99 and i = 0]
  note t' = bootstrap_resampling_deterministic
    [where R = demo_random and train = demo_train and dataset = demo_dataset
       and model_specification = "()" and num_it = 2 and seed = "- 1"
       and ?g0.0 = 7 and g0' = 99 and i = 0]
  have s: "(0 :: int) \<le> 42 \<and> (42 :: int) < 2 ^ 32" by simp
  have 1: "bootstrap_run demo_random demo_train demo_dataset () 2 42 7
     = bootstrap_run demo_random demo_train demo_dataset () 2 42 99"
    using t s by blast
  have d: "drawn (fst (bootstrap_run demo_random demo_train demo_dataset () 2 42 99)) =
       [([10, 11, 11], [12]), ([11, 11, 11], [10, 12])]"
    by (simp add: demo_run)
  have 2: "gen_before demo_random demo_train demo_dataset () 42 0 = seed_state demo_random 42"
    using t by blast
  have 3: "gen_before demo_random demo_train demo_dataset () 42 (Suc 0) =
       snd (snd (resample_and_train demo_random demo_train demo_dataset () (length demo_dataset)
         (gen_before demo_random demo_train demo_dataset () 42 0)))"
    using t by blast
  have 4: "drawn (fst (bootstrap_run demo_random demo_train demo_dataset () 2 42 7)) =
       concat (map (resampled_in demo_random demo_train demo_dataset () 42)
         [0..<length (drawn (fst (bootstrap_run demo_random demo_train demo_dataset () 2 42 7)))])"
    using t by blast
  have 5: "bootstrap demo_random demo_train demo_dataset () 2 (- 1) 7
       = bootstrap demo_random demo_train demo_dataset () 2 (- 1) 99"
    using t' by blast
  show ?thesis by (intro conjI) (rule 1 2 3 4 d 5)+
qed

section \<open>Properties of split\_fe\_model\<close>

subsection \<open>The statements, one by one, on a store that has grown\<close>

lemma deref_old: "r < length h \<Longrightarrow> deref (h @ e) r = deref h r"
  by (simp add: deref_def nth_append)

lemma deref_Some_old: "deref h r = Some ob \<Longrightarrow> deref (h @ e) r = Some ob"
  by (auto simp: deref_def nth_append split: if_splits)

lemma deref_new: "k < length e \<Longrightarrow> deref (h @ e) (length h + k) = Some (e ! k)"
  by (simp add: deref_def)

lemma getattr_old:
  "deref h r = Some (Instance as) \<Longrightarrow> map_of as name = Some v \<Longrightarrow>
   getattr r name (h @ e) = (Inr v, h @ e)"
  by (simp add: getattr_def deref_Some_old)

lemma setattr_new:
  "k < length e \<Longrightarrow> is_Instance (e ! k) \<Longrightarrow>
   setattr (length h + k) name v (h @ e) =
     (Inr (), h @ e[k := Instance (AList.update name v (attributes (e ! k)))])"
  by (cases "e ! k") (simp_all add: setattr_def deref_new list_update_append)

lemma alloc_new: "alloc ob (h @ e) = (Inr (length h + length e), h @ (e @ [ob]))"
  by (simp add: alloc_def)

lemma iterate_old:
  "deref h v = Some (ListObj items) \<Longrightarrow> iterate v (h @ e) = (Inr items, h @ e)"
  by (simp add: iterate_def deref_Some_old)

lemma slice_step2_old:
  "deref h v = Some (ListObj items) \<Longrightarrow>
   slice_step2 start v (h @ e) =
     (Inr (ListObj (map (\<lambda>i. items ! i) (py_range start (length items) 2))), h @ e)"
  by (simp add: slice_step2_def deref_Some_old)

lemma copy_attr_new:
  "deref h model = Some (Instance as) \<Longrightarrow> map_of as name = Some v \<Longrightarrow>
   k < length e \<Longrightarrow> is_Instance (e ! k) \<Longrightarrow>
   copy_attr name model (length h + k) (h @ e) =
     (Inr (), h @ e[k := Instance (AList.update name v (attributes (e ! k)))])"
  by (simp add: copy_attr_def py_bind_def getattr_old setattr_new)

lemma assign_boosters_new:
  "deref h model = Some (Instance as) \<Longrightarrow> map_of as ''boosters'' = Some b \<Longrightarrow>
   deref h b = Some (ListObj bs) \<Longrightarrow>
   k < length e \<Longrightarrow> is_Instance (e ! k) \<Longrightarrow>
   assign_boosters parity model (length h + k) (h @ e) =
     (Inr (), h @ (e @ [ListObj (map snd (filter (\<lambda>(i, b). i mod 2 = parity) (List.enumerate 0 bs)))])
        [k := Instance (AList.update ''boosters'' (length h + length e) (attributes (e ! k)))])"
  by (simp add: assign_boosters_def py_bind_def getattr_old iterate_old alloc_new
      setattr_new nth_append)

lemma assign_rum_structure_new:
  "deref h model = Some (Instance as) \<Longrightarrow> map_of as ''rum_structure'' = Some r \<Longrightarrow>
   deref h r = Some (ListObj rs) \<Longrightarrow>
   k < length e \<Longrightarrow> is_Instance (e ! k) \<Longrightarrow>
   assign_rum_structure start model (length h + k) (h @ e) =
     (Inr (), h @ (e @ [ListObj (map (\<lambda>i. rs ! i) (py_range start (length rs) 2))])
        [k := Instance (AList.update ''rum_structure'' (length h + length e) (attributes (e ! k)))])"
  by (simp add: assign_rum_structure_def py_bind_def getattr_old slice_step2_old alloc_new
      setattr_new nth_append)

lemma split_fe_model_success:
  assumes m: "deref h model = Some (Instance as)"
    and r: "map_of as ''rum_structure'' = Some r" "deref h r = Some (ListObj rs)"
    and b: "map_of as ''boosters'' = Some b" "deref h b = Some (ListObj bs)"
    and o: "map_of as ''num_classes'' = Some nc" "map_of as ''device'' = Some dv"
      "map_of as ''nests'' = Some ns" "map_of as ''alphas'' = Some al"
  shows "split_fe_model init model h =
    (Inr (length h, Suc (length h)),
     h @ [Instance (AList.update ''alphas'' al (AList.update ''nests'' ns
            (AList.update ''device'' dv (AList.update ''num_classes'' nc
            (AList.update ''rum_structure'' (length h + 3)
            (AList.update ''boosters'' (length h + 2) init)))))),
          Instance (AList.update ''alphas'' al (AList.update ''nests'' ns
            (AList.update ''device'' dv (AList.update ''num_classes'' nc
            (AList.update ''rum_structure'' (length h + 5)
            (AList.update ''boosters'' (length h + 4) init)))))),
          ListObj (map snd (filter (\<lambda>(i, b). i mod 2 = 0) (List.enumerate 0 bs))),
          ListObj (map (\<lambda>i. rs ! i) (py_range 0 (length rs) 2)),
          ListObj (map snd (filter (\<lambda>(i, b). i mod 2 = 1) (List.enumerate 0 bs))),
          ListObj (map (\<lambda>i. rs ! i) (py_range 1 (length rs) 2))])"
proof -
  have g: "getattr model ''rum_structure'' h = (Inr r, h)"
    using getattr_old [OF m r(1), of "[]"] by simp
  have i: "isinstance_list r h = (Inr True, h)"
    by (simp add: isinstance_list_def r)
  have a1: "RUMBoost init h = (Inr (length h), h @ [Instance init])"
    by (simp add: RUMBoost_def alloc_def)
  have a2: "RUMBoost init (h @ [Instance init]) = (Inr (Suc (length h)), h @ [Instance init, Instance init])"
    by (simp add: RUMBoost_def alloc_def)
  note steps =
    copy_attr_new [OF m, where k = 0, simplified]
    copy_attr_new [OF m, where k = 1, simplified]
    assign_boosters_new [OF m b, where k = 0, simplified]
    assign_boosters_new [OF m b, where k = 1, simplified]
    assign_rum_structure_new [OF m r, where k = 0, simplified]
    assign_rum_structure_new [OF m r, where k = 1, simplified]
  show ?thesis
    unfolding split_fe_model_def
    apply (simp add: py_bind_def [of "getattr model ''rum_structure''"] g)
    apply (simp add: py_bind_def [of "isinstance_list r"] i)
    apply (simp add: py_bind_def [of "RUMBoost init"] a1 a2)
    apply (simp add: py_seq_def py_bind_def py_return_def steps o eval_nat_numeral)
    done
qed

subsection \<open>Every second entry of a list\<close>

lemma filter_parity_upt:
  "p < 2 \<Longrightarrow> filter (\<lambda>i. i mod 2 = p) [0..<2 * n] = map (\<lambda>i. 2 * i + p) [0..<n]"
proof (induction n)
  case 0
  then show ?case by simp
next
  case (Suc n)
  have u: "[0..<2 * Suc n] = [0..<2 * n] @ [2 * n, 2 * n + 1]" by simp
  have v: "[0..<Suc n] = [0..<n] @ [n]" by simp
  from Suc.prems have "p = 0 \<or> p = 1" by auto
  then show ?case unfolding u v using Suc by auto
qed

lemma enumerate_filter_parity:
  "map snd (filter (\<lambda>(i, b). i mod 2 = p) (List.enumerate 0 xs))
     = map (\<lambda>i. xs ! i) (filter (\<lambda>i. i mod 2 = p) [0..<length xs])"
proof -
  have "List.enumerate 0 xs = map (\<lambda>i. (i, xs ! i)) [0..<length xs]"
    by (rule nth_equalityI) (simp_all add: nth_enumerate_eq)
  then show ?thesis by (simp add: filter_map comp_def)
qed

lemma comprehension_parity:
  assumes "length xs = 2 * n" "p < 2"
  shows "map snd (filter (\<lambda>(i, b). i mod 2 = p) (List.enumerate 0 xs))
     = map (\<lambda>i. xs ! (2 * i + p)) [0..<n]"
  by (simp add: enumerate_filter_parity assms filter_parity_upt comp_def)

lemma py_range_parity:
  assumes "p < 2"
  shows "py_range p (2 * n) 2 = map (\<lambda>i. 2 * i + p) [0..<n]"
proof -
  have "py_range p (2 * n) 2 = filter (\<lambda>i. i mod 2 = p) [0..<2 * n]"
  proof (cases "p = 0")
    case True
    then show ?thesis by (simp add: py_range_def)
  next
    case False
    with assms have p: "p = 1" by simp
    show ?thesis
    proof (cases n)
      case 0
      then show ?thesis by (simp add: py_range_def p)
    next
      case (Suc m)
      have "[0..<2 * n] = 0 # [1..<2 * n]" using Suc by (simp add: upt_conv_Cons)
      moreover have "filter (\<lambda>i. (i - 1) mod 2 = 0) [1..<2 * n] = filter (\<lambda>i. i mod 2 = 1) [1..<2 * n]"
        by (rule filter_cong) (auto, presburger+)
      ultimately show ?thesis by (simp add: py_range_def p)
    qed
  qed
  then show ?thesis by (simp add: filter_parity_upt assms)
qed

lemma slice_parity:
  assumes "length xs = 2 * n" "p < 2"
  shows "map (\<lambda>i. xs ! i) (py_range p (length xs) 2) = map (\<lambda>i. xs ! (2 * i + p)) [0..<n]"
  by (simp add: assms py_range_parity comp_def)

lemma interleave_pairs:
  "length xs = 2 * n \<Longrightarrow> concat (map (\<lambda>i. [xs ! (2 * i), xs ! (2 * i + 1)]) [0..<n]) = xs"
proof (induction n arbitrary: xs)
  case 0
  then show ?case by simp
next
  case (Suc n)
  then obtain x y ys where xs: "xs = x # y # ys" and l: "length ys = 2 * n"
    by (cases xs; cases "tl xs") auto
  have "concat (map (\<lambda>i. [xs ! (2 * i), xs ! (2 * i + 1)]) [0..<Suc n])
      = [x, y] @ concat (map (\<lambda>i. [ys ! (2 * i), ys ! (2 * i + 1)]) [0..<n])"
    unfolding upt_Suc_shift by (simp add: xs comp_def)
  then show ?case using Suc.IH [OF l] by (simp add: xs)
qed

subsection \<open>What a caller reads off the store after a successful call\<close>

lemma is_rumboost_modelD:
  assumes "is_rumboost_model h model bs rs"
  obtains as r b nc dv ns al where
    "deref h model = Some (Instance as)"
    "map_of as ''rum_structure'' = Some r" "deref h r = Some (ListObj rs)"
    "map_of as ''boosters'' = Some b" "deref h b = Some (ListObj bs)"
    "map_of as ''num_classes'' = Some nc" "map_of as ''device'' = Some dv"
    "map_of as ''nests'' = Some ns" "map_of as ''alphas'' = Some al"
proof -
  from assms obtain as where m: "deref h model = Some (Instance as)"
    by (auto simp: is_rumboost_model_def attr_def split: option.splits pyobj.splits)
  from assms m obtain b where b: "map_of as ''boosters'' = Some b" "deref h b = Some (ListObj bs)"
    by (auto simp: is_rumboost_model_def attr_list_def attr_def list_items_def
        split: option.splits pyobj.splits)
  from assms m obtain r where r: "map_of as ''rum_structure'' = Some r" "deref h r = Some (ListObj rs)"
    by (auto simp: is_rumboost_model_def attr_list_def attr_def list_items_def
        split: option.splits pyobj.splits)
  from assms m obtain nc dv ns al where
    "map_of as ''num_classes'' = Some nc" "map_of as ''device'' = Some dv"
    "map_of as ''nests'' = Some ns" "map_of as ''alphas'' = Some al"
    by (auto simp: is_rumboost_model_def attr_def)
  with m b r show ?thesis using that by blast
qed

lemma attr_old: "deref h r = Some ob \<Longrightarrow> attr (h @ e) r name = attr h r name"
  by (simp add: attr_def deref_Some_old)

lemma attr_new_0: "attr (h @ Instance as # e) (length h) name = map_of as name"
  by (simp add: attr_def deref_def)

lemma attr_new_1: "attr (h @ x # Instance as # e) (Suc (length h)) name = map_of as name"
  by (simp add: attr_def deref_def nth_append)

lemma attr_names_new_0: "attr_names (h @ Instance as # e) (length h) = fst ` set as"
  by (simp add: attr_names_def deref_def)

lemma attr_names_new_1: "attr_names (h @ x # Instance as # e) (Suc (length h)) = fst ` set as"
  by (simp add: attr_names_def deref_def nth_append)

lemma list_items_new: "k < length e \<Longrightarrow> list_items (h @ e) (length h + k) = (case e ! k of ListObj xs \<Rightarrow> Some xs | _ \<Rightarrow> None)"
  by (simp add: list_items_def deref_new)

lemma attr_list_new_0:
  "map_of as name = Some (length h + k) \<Longrightarrow> k < Suc (length e) \<Longrightarrow>
   attr_list (h @ Instance as # e) (length h) name
     = (case (Instance as # e) ! k of ListObj xs \<Rightarrow> Some xs | _ \<Rightarrow> None)"
  by (simp add: attr_list_def attr_new_0 list_items_new)

lemma attr_list_new_1:
  "map_of as name = Some (length h + k) \<Longrightarrow> k < Suc (Suc (length e)) \<Longrightarrow>
   attr_list (h @ x # Instance as # e) (Suc (length h)) name
     = (case (x # Instance as # e) ! k of ListObj xs \<Rightarrow> Some xs | _ \<Rightarrow> None)"
  by (simp add: attr_list_def attr_new_1 list_items_new)

lemma split_fe_model_observed:
  fixes h :: heap and init model
  defines "h' \<equiv> snd (split_fe_model init model h)"
  assumes "is_rumboost_model h model bs rs"
  shows "split_fe_model init model h = (Inr (length h, Suc (length h)), h')"
    and "attr_list h' (length h) ''boosters''
         = Some (map snd (filter (\<lambda>(i, b). i mod 2 = 0) (List.enumerate 0 bs)))"
    and "attr_list h' (length h) ''rum_structure''
         = Some (map (\<lambda>i. rs ! i) (py_range 0 (length rs) 2))"
    and "attr_list h' (Suc (length h)) ''boosters''
         = Some (map snd (filter (\<lambda>(i, b). i mod 2 = 1) (List.enumerate 0 bs)))"
    and "attr_list h' (Suc (length h)) ''rum_structure''
         = Some (map (\<lambda>i. rs ! i) (py_range 1 (length rs) 2))"
    and "\<forall>name \<in> {''num_classes'', ''device'', ''nests'', ''alphas''}.
          attr h' (length h) name = attr h model name
        \<and> attr h' (Suc (length h)) name = attr h model name"
    and "attr_names h' (length h) = fst ` set init \<union>
         {''boosters'', ''rum_structure'', ''num_classes'', ''device'', ''nests'', ''alphas''}"
    and "attr_names h' (Suc (length h)) = fst ` set init \<union>
         {''boosters'', ''rum_structure'', ''num_classes'', ''device'', ''nests'', ''alphas''}"
    and "\<forall>name. name \<notin> {''boosters'', ''rum_structure'', ''num_classes'', ''device'',
                        ''nests'', ''alphas''}
          \<longrightarrow> attr h' (length h) name = map_of init name
            \<and> attr h' (Suc (length h)) name = map_of init name"
proof -
  from assms(2) obtain as r b nc dv ns al where
    m: "deref h model = Some (Instance as)"
    and r: "map_of as ''rum_structure'' = Some r" "deref h r = Some (ListObj rs)"
    and b: "map_of as ''boosters'' = Some b" "deref h b = Some (ListObj bs)"
    and o: "map_of as ''num_classes'' = Some nc" "map_of as ''device'' = Some dv"
      "map_of as ''nests'' = Some ns" "map_of as ''alphas'' = Some al"
    by (rule is_rumboost_modelD)
  define A where "A = AList.update ''alphas'' al (AList.update ''nests'' ns
            (AList.update ''device'' dv (AList.update ''num_classes'' nc
            (AList.update ''rum_structure'' (length h + 3)
            (AList.update ''boosters'' (length h + 2) init)))))"
  define S where "S = AList.update ''alphas'' al (AList.update ''nests'' ns
            (AList.update ''device'' dv (AList.update ''num_classes'' nc
            (AList.update ''rum_structure'' (length h + 5)
            (AList.update ''boosters'' (length h + 4) init)))))"
  define e where "e = [ListObj (map snd (filter (\<lambda>(i, b). i mod 2 = 0) (List.enumerate 0 bs))),
          ListObj (map (\<lambda>i. rs ! i) (py_range 0 (length rs) 2)),
          ListObj (map snd (filter (\<lambda>(i, b). i mod 2 = 1) (List.enumerate 0 bs))),
          ListObj (map (\<lambda>i. rs ! i) (py_range 1 (length rs) 2))]"
  define k where "k = h @ Instance A # Instance S # e"
  have res0: "split_fe_model init model h = (Inr (length h, Suc (length h)), k)"
    using split_fe_model_success [OF m r b o, of init] by (simp add: k_def A_def S_def e_def)
  then have h': "h' = k" by (simp add: h'_def)
  from res0 show "split_fe_model init model h = (Inr (length h, Suc (length h)), h')"
    by (simp add: h')
  have old: "attr h model name = map_of as name" for name
    by (simp add: attr_def m)
  have mA: "map_of A = (map_of init)(''boosters'' \<mapsto> length h + 2,
      ''rum_structure'' \<mapsto> length h + 3, ''num_classes'' \<mapsto> nc, ''device'' \<mapsto> dv,
      ''nests'' \<mapsto> ns, ''alphas'' \<mapsto> al)"
    by (simp add: A_def update_conv')
  have mS: "map_of S = (map_of init)(''boosters'' \<mapsto> length h + 4,
      ''rum_structure'' \<mapsto> length h + 5, ''num_classes'' \<mapsto> nc, ''device'' \<mapsto> dv,
      ''nests'' \<mapsto> ns, ''alphas'' \<mapsto> al)"
    by (simp add: S_def update_conv')
  have dA: "fst ` set A = fst ` set init \<union>
         {''boosters'', ''rum_structure'', ''num_classes'', ''device'', ''nests'', ''alphas''}"
    by (auto simp: A_def dom_update)
  have dS: "fst ` set S = fst ` set init \<union>
         {''boosters'', ''rum_structure'', ''num_classes'', ''device'', ''nests'', ''alphas''}"
    by (auto simp: S_def dom_update)
  show "attr_list h' (length h) ''boosters''
         = Some (map snd (filter (\<lambda>(i, b). i mod 2 = 0) (List.enumerate 0 bs)))"
    unfolding h' k_def by (subst attr_list_new_0 [where k = 2]) (simp_all add: mA e_def)
  show "attr_list h' (length h) ''rum_structure''
         = Some (map (\<lambda>i. rs ! i) (py_range 0 (length rs) 2))"
    unfolding h' k_def by (subst attr_list_new_0 [where k = 3]) (simp_all add: mA e_def)
  show "attr_list h' (Suc (length h)) ''boosters''
         = Some (map snd (filter (\<lambda>(i, b). i mod 2 = 1) (List.enumerate 0 bs)))"
    unfolding h' k_def by (subst attr_list_new_1 [where k = 4]) (simp_all add: mS e_def)
  show "attr_list h' (Suc (length h)) ''rum_structure''
         = Some (map (\<lambda>i. rs ! i) (py_range 1 (length rs) 2))"
    unfolding h' k_def by (subst attr_list_new_1 [where k = 5]) (simp_all add: mS e_def)
  show "\<forall>name \<in> {''num_classes'', ''device'', ''nests'', ''alphas''}.
          attr h' (length h) name = attr h model name
        \<and> attr h' (Suc (length h)) name = attr h model name"
    by (simp add: h' k_def attr_new_0 attr_new_1 mA mS old o)
  show "attr_names h' (length h) = fst ` set init \<union>
         {''boosters'', ''rum_structure'', ''num_classes'', ''device'', ''nests'', ''alphas''}"
    by (simp add: h' k_def attr_names_new_0 dA)
  show "attr_names h' (Suc (length h)) = fst ` set init \<union>
         {''boosters'', ''rum_structure'', ''num_classes'', ''device'', ''nests'', ''alphas''}"
    by (simp add: h' k_def attr_names_new_1 dS)
  show "\<forall>name. name \<notin> {''boosters'', ''rum_structure'', ''num_classes'', ''device'', ''nests'', ''alphas''}
          \<longrightarrow> attr h' (length h) name = map_of init name
            \<and> attr h' (Suc (length h)) name = map_of init name"
    by (simp add: h' k_def attr_new_0 attr_new_1 mA mS)
qed

subsection \<open>The objects of the store before the call are left as they are\<close>

lemma extends_only_bind_result:
  assumes m: "extends_only h m"
    and q: "\<And>e0 x H. m (h @ e0) = (Inr x, H) \<Longrightarrow> Q x"
    and f: "\<And>x. Q x \<Longrightarrow> extends_only h (f x)"
  shows "extends_only h (py_bind m f)"
  unfolding extends_only_def
proof
  fix e0
  from m obtain e1 where e1: "snd (m (h @ e0)) = h @ e1" unfolding extends_only_def by blast
  show "\<exists>e. snd (py_bind m f (h @ e0)) = h @ e"
  proof (cases "fst (m (h @ e0))")
    case (Inl x)
    then have "m (h @ e0) = (Inl x, h @ e1)" using e1 by (metis prod.collapse)
    then show ?thesis by (simp add: py_bind_def)
  next
    case (Inr x)
    then have r: "m (h @ e0) = (Inr x, h @ e1)" using e1 by (metis prod.collapse)
    from f [OF q [OF r]] obtain e2 where "snd (f x (h @ e1)) = h @ e2"
      unfolding extends_only_def by blast
    with r show ?thesis by (simp add: py_bind_def)
  qed
qed

lemma extends_only_bind:
  "extends_only h m \<Longrightarrow> (\<And>x. extends_only h (f x)) \<Longrightarrow> extends_only h (py_bind m f)"
  by (rule extends_only_bind_result [where Q = "\<lambda>_. True"]) simp_all

lemma extends_only_seq:
  "extends_only h m \<Longrightarrow> extends_only h n \<Longrightarrow> extends_only h (py_seq m n)"
  unfolding py_seq_def by (rule extends_only_bind)

lemma extends_only_return: "extends_only h (py_return x)"
  by (simp add: extends_only_def py_return_def)

lemma extends_only_raise: "extends_only h (py_raise x)"
  by (simp add: extends_only_def py_raise_def)

lemma extends_only_getattr: "extends_only h (getattr r name)"
  by (simp add: extends_only_def getattr_def split: option.splits pyobj.splits)

lemma extends_only_isinstance_list: "extends_only h (isinstance_list r)"
  by (simp add: extends_only_def isinstance_list_def split: option.splits pyobj.splits)

lemma extends_only_iterate: "extends_only h (iterate r)"
  by (simp add: extends_only_def iterate_def split: option.splits pyobj.splits)

lemma extends_only_slice_step2: "extends_only h (slice_step2 start r)"
  by (simp add: extends_only_def slice_step2_def split: option.splits pyobj.splits)

lemma extends_only_alloc: "extends_only h (alloc ob)"
  by (simp add: extends_only_def alloc_def)

lemma alloc_result: "alloc ob (h @ e0) = (Inr x, H) \<Longrightarrow> length h \<le> x"
  by (auto simp: alloc_def)

lemma extends_only_setattr: "length h \<le> t \<Longrightarrow> extends_only h (setattr t name v)"
  by (auto simp: extends_only_def setattr_def list_update_append split: option.splits pyobj.splits)

lemma extends_only_copy_attr:
  "length h \<le> t \<Longrightarrow> extends_only h (copy_attr name model t)"
  unfolding copy_attr_def
  by (intro extends_only_bind extends_only_getattr extends_only_setattr)

lemma extends_only_assign_boosters:
  "length h \<le> t \<Longrightarrow> extends_only h (assign_boosters parity model t)"
  unfolding assign_boosters_def
  by (intro extends_only_bind extends_only_getattr extends_only_iterate extends_only_alloc
      extends_only_setattr)

lemma extends_only_assign_rum_structure:
  "length h \<le> t \<Longrightarrow> extends_only h (assign_rum_structure start model t)"
  unfolding assign_rum_structure_def
  by (intro extends_only_bind extends_only_getattr extends_only_slice_step2 extends_only_alloc
      extends_only_setattr)

lemma extends_only_split_fe_model: "extends_only h (split_fe_model init model)"
  unfolding split_fe_model_def RUMBoost_def
  apply (rule extends_only_bind [OF extends_only_getattr])
  apply (rule extends_only_bind [OF extends_only_isinstance_list])
  apply (simp add: extends_only_raise)
  apply (rule impI)
  apply (rule extends_only_bind_result [OF extends_only_alloc, where Q = "\<lambda>x. length h \<le> x"])
   apply (erule alloc_result)
  apply (rule extends_only_bind_result [OF extends_only_alloc, where Q = "\<lambda>x. length h \<le> x"])
   apply (erule alloc_result)
  apply (intro extends_only_seq extends_only_return extends_only_copy_attr
      extends_only_assign_boosters extends_only_assign_rum_structure)
             apply assumption+
  done

lemma split_fe_model_frame: "take (length h) (snd (split_fe_model init model h)) = h"
proof -
  from extends_only_split_fe_model [of h init model]
  obtain e where "snd (split_fe_model init model (h @ [])) = h @ e"
    unfolding extends_only_def by blast
  then show ?thesis by simp
qed

subsection \<open>No ValueError once the check has passed\<close>

lemma never_raises_bind:
  "never_raises x m \<Longrightarrow> (\<And>y. never_raises x (f y)) \<Longrightarrow> never_raises x (py_bind m f)"
  by (auto simp: never_raises_def py_bind_def split: prod.splits sum.splits)
    (metis fst_conv)+

lemma never_raises_seq:
  "never_raises x m \<Longrightarrow> never_raises x n \<Longrightarrow> never_raises x (py_seq m n)"
  unfolding py_seq_def by (rule never_raises_bind)

lemma never_raises_return: "never_raises x (py_return y)"
  by (simp add: never_raises_def py_return_def)

lemma never_ValueError_getattr: "never_raises ValueError (getattr r name)"
  by (simp add: never_raises_def getattr_def split: option.splits pyobj.splits)

lemma never_ValueError_setattr: "never_raises ValueError (setattr r name v)"
  by (simp add: never_raises_def setattr_def split: option.splits pyobj.splits)

lemma never_ValueError_iterate: "never_raises ValueError (iterate r)"
  by (simp add: never_raises_def iterate_def split: option.splits pyobj.splits)

lemma never_ValueError_slice_step2: "never_raises ValueError (slice_step2 start r)"
  by (simp add: never_raises_def slice_step2_def split: option.splits pyobj.splits)

lemma never_raises_alloc: "never_raises x (alloc ob)"
  by (simp add: never_raises_def alloc_def)

lemmas never_ValueError =
  never_raises_bind never_raises_seq never_raises_return never_ValueError_getattr
  never_ValueError_setattr never_ValueError_iterate never_ValueError_slice_step2
  never_raises_alloc

lemma never_ValueError_after_check:
  "never_raises ValueError
     (py_bind (RUMBoost init) (\<lambda>attributes_model.
       py_bind (RUMBoost init) (\<lambda>socio_economic_model.
       py_seq (assign_boosters 0 model attributes_model)
      (py_seq (assign_rum_structure 0 model attributes_model)
      (py_seq (copy_attr ''num_classes'' model attributes_model)
      (py_seq (copy_attr ''device'' model attributes_model)
      (py_seq (copy_attr ''nests'' model attributes_model)
      (py_seq (copy_attr ''alphas'' model attributes_model)
      (py_seq (assign_boosters 1 model socio_economic_model)
      (py_seq (assign_rum_structure 1 model socio_economic_model)
      (py_seq (copy_attr ''num_classes'' model socio_economic_model)
      (py_seq (copy_attr ''device'' model socio_economic_model)
      (py_seq (copy_attr ''nests'' model socio_economic_model)
      (py_seq (copy_attr ''alphas'' model socio_economic_model)
      (py_return (attributes_model, socio_economic_model))))))))))))))))"
  unfolding RUMBoost_def assign_boosters_def assign_rum_structure_def copy_attr_def
  by (intro never_ValueError)

subsection \<open>The concrete stores, evaluated\<close>

lemma demo_model: "is_rumboost_model demo_heap 14 [3, 4, 5, 6] [7, 8, 9, 10]"
  by (simp add: is_rumboost_model_def attr_list_def attr_def deref_def list_items_def demo_heap_def)

lemma demo_split:
  "split_fe_model [] 14 demo_heap =
    (Inr (15, 16),
     demo_heap @
       [Instance [(''boosters'', 17), (''rum_structure'', 18), (''num_classes'', 1),
                  (''device'', 2), (''nests'', 13), (''alphas'', 0)],
        Instance [(''boosters'', 19), (''rum_structure'', 20), (''num_classes'', 1),
                  (''device'', 2), (''nests'', 13), (''alphas'', 0)],
        ListObj [3, 5], ListObj [7, 9], ListObj [4, 6], ListObj [8, 10]])"
proof -
  have l: "length demo_heap = 15" by (simp add: demo_heap_def)
  have m: "deref demo_heap 14 = Some (Instance [(''boosters'', 11), (''rum_structure'', 12),
      (''num_classes'', 1), (''device'', 2), (''nests'', 13), (''alphas'', 0),
      (''best_iteration'', 1)])"
    by (simp add: deref_def demo_heap_def)
  have r: "deref demo_heap 12 = Some (ListObj [7, 8, 9, 10])" by (simp add: deref_def demo_heap_def)
  have b: "deref demo_heap 11 = Some (ListObj [3, 4, 5, 6])" by (simp add: deref_def demo_heap_def)
  have e: "List.enumerate 0 [3, 4, 5, 6 :: nat] = [(0, 3), (1, 4), (2, 5), (3, 6)]" by simp
  have u: "[0..<4] = [0, 1, 2, 3]" "[1..<4] = [1, 2, 3]" by (simp_all add: upt_conv_Cons)
  show ?thesis
    using split_fe_model_success [OF m _ r _ b, of 1 2 13 0 "[]"]
    by (simp add: l e py_range_def u)
qed

lemma split_fe_model_old_objects:
  assumes "deref h r = Some ob"
  shows "deref (snd (split_fe_model init model h)) r = Some ob"
proof -
  from extends_only_split_fe_model [of h init model]
  obtain e where e: "snd (split_fe_model init model (h @ [])) = h @ e"
    unfolding extends_only_def by blast
  then have "snd (split_fe_model init model h) = h @ e" by simp
  with deref_Some_old [OF assms, of e] show ?thesis by simp
qed

lemma split_fe_model_dangling:
  assumes "deref h model = None"
  shows "split_fe_model init model h = (Inl AttributeError, h)"
  using assms by (simp add: split_fe_model_def py_bind_def getattr_def)

subsection \<open>C4: the even and the odd positions\<close>

text \<open>
  C4. For every model whose \<^verbatim>\<open>boosters\<close> and \<^verbatim>\<open>rum_structure\<close> are lists of length \<open>2n\<close>,
  \<^verbatim>\<open>split_fe_model\<close> returns two models with \<open>n\<close> boosters and \<open>n\<close> descriptors each:
  the attributes model holds the entries at the even positions, the socio-economic
  model those at the odd positions, both in their original order, so that taking entry
  \<open>i\<close> of the first and then entry \<open>i\<close> of the second, for every \<open>i\<close>, gives the original
  lists back.
\<close>

theorem split_fe_model_even_odd:
  assumes "is_rumboost_model h model bs rs" and "length bs = 2 * n" and "length rs = 2 * n"
  shows "\<exists>a s h' ab ar sb sr.
      split_fe_model init model h = (Inr (a, s), h')
    \<and> attr_list h' a ''boosters'' = Some ab \<and> attr_list h' a ''rum_structure'' = Some ar
    \<and> attr_list h' s ''boosters'' = Some sb \<and> attr_list h' s ''rum_structure'' = Some sr
    \<and> length ab = n \<and> length ar = n \<and> length sb = n \<and> length sr = n
    \<and> ab = map (\<lambda>i. bs ! (2 * i)) [0..<n] \<and> sb = map (\<lambda>i. bs ! (2 * i + 1)) [0..<n]
    \<and> ar = map (\<lambda>i. rs ! (2 * i)) [0..<n] \<and> sr = map (\<lambda>i. rs ! (2 * i + 1)) [0..<n]
    \<and> concat (map (\<lambda>i. [ab ! i, sb ! i]) [0..<n]) = bs
    \<and> concat (map (\<lambda>i. [ar ! i, sr ! i]) [0..<n]) = rs"
proof -
  define ab where "ab = map (\<lambda>i. bs ! (2 * i)) [0..<n]"
  define sb where "sb = map (\<lambda>i. bs ! (2 * i + 1)) [0..<n]"
  define ar where "ar = map (\<lambda>i. rs ! (2 * i)) [0..<n]"
  define sr where "sr = map (\<lambda>i. rs ! (2 * i + 1)) [0..<n]"
  define h' where "h' = snd (split_fe_model init model h)"
  note obs = split_fe_model_observed [OF assms(1), of init, folded h'_def]
  note res = obs(1) and 1 = obs(2) and 2 = obs(3) and 3 = obs(4) and 4 = obs(5)
  have a1: "attr_list h' (length h) ''boosters'' = Some ab"
    using 1 comprehension_parity [OF assms(2), of 0] by (simp add: ab_def)
  have a2: "attr_list h' (length h) ''rum_structure'' = Some ar"
    using 2 slice_parity [OF assms(3), of 0] by (simp add: ar_def)
  have a3: "attr_list h' (Suc (length h)) ''boosters'' = Some sb"
    using 3 comprehension_parity [OF assms(2), of 1] by (simp add: sb_def)
  have a4: "attr_list h' (Suc (length h)) ''rum_structure'' = Some sr"
    using 4 slice_parity [OF assms(3), of 1] by (simp add: sr_def)
  have ib: "concat (map (\<lambda>i. [ab ! i, sb ! i]) [0..<n]) = bs"
  proof -
    have "map (\<lambda>i. [ab ! i, sb ! i]) [0..<n] = map (\<lambda>i. [bs ! (2 * i), bs ! (2 * i + 1)]) [0..<n]"
      by (rule map_cong) (simp_all add: ab_def sb_def)
    then show ?thesis by (simp only: interleave_pairs [OF assms(2)])
  qed
  have ir: "concat (map (\<lambda>i. [ar ! i, sr ! i]) [0..<n]) = rs"
  proof -
    have "map (\<lambda>i. [ar ! i, sr ! i]) [0..<n] = map (\<lambda>i. [rs ! (2 * i), rs ! (2 * i + 1)]) [0..<n]"
      by (rule map_cong) (simp_all add: ar_def sr_def)
    then show ?thesis by (simp only: interleave_pairs [OF assms(3)])
  qed
  have len: "length ab = n" "length ar = n" "length sb = n" "length sr = n"
    by (simp_all add: ab_def ar_def sb_def sr_def)
  have eqs: "ab = map (\<lambda>i. bs ! (2 * i)) [0..<n]" "sb = map (\<lambda>i. bs ! (2 * i + 1)) [0..<n]"
    "ar = map (\<lambda>i. rs ! (2 * i)) [0..<n]" "sr = map (\<lambda>i. rs ! (2 * i + 1)) [0..<n]"
    by (simp_all only: ab_def sb_def ar_def sr_def)
  show ?thesis
    apply (rule exI [of _ "length h"])
    apply (rule exI [of _ "Suc (length h)"])
    apply (rule exI [of _ h'])
    apply (rule exI [of _ ab])
    apply (rule exI [of _ ar])
    apply (rule exI [of _ sb])
    apply (rule exI [of _ sr])
    apply (intro conjI)
    apply (rule res a1 a2 a3 a4 len ib ir eqs)+
    done
qed

theorem split_fe_model_even_odd_witness:
  "is_rumboost_model demo_heap 14 [3, 4, 5, 6] [7, 8, 9, 10]
   \<and> length [3, 4, 5, 6 :: ref] = 2 * 2
   \<and> length [7, 8, 9, 10 :: ref] = 2 * 2
   \<and> attr_list (snd (split_fe_model [] 14 demo_heap)) 15 ''boosters'' = Some [3, 5]
   \<and> attr_list (snd (split_fe_model [] 14 demo_heap)) 16 ''boosters'' = Some [4, 6]
   \<and> (\<exists>a s h' ab ar sb sr.
      split_fe_model [] 14 demo_heap = (Inr (a, s), h')
    \<and> attr_list h' a ''boosters'' = Some ab \<and> attr_list h' a ''rum_structure'' = Some ar
    \<and> attr_list h' s ''boosters'' = Some sb \<and> attr_list h' s ''rum_structure'' = Some sr
    \<and> length ab = 2 \<and> length ar = 2 \<and> length sb = 2 \<and> length sr = 2
    \<and> ab = map (\<lambda>i. [3, 4, 5, 6] ! (2 * i)) [0..<2]
    \<and> sb = map (\<lambda>i. [3, 4, 5, 6] ! (2 * i + 1)) [0..<2]
    \<and> ar = map (\<lambda>i. [7, 8, 9, 10] ! (2 * i)) [0..<2]
    \<and> sr = map (\<lambda>i. [7, 8, 9, 10] ! (2 * i + 1)) [0..<2]
    \<and> concat (map (\<lambda>i. [ab ! i, sb ! i]) [0..<2]) = [3, 4, 5, 6]
    \<and> concat (map (\<lambda>i. [ar ! i, sr ! i]) [0..<2]) = [7, 8, 9, 10])"
proof -
  have l1: "length [3, 4, 5, 6 :: ref] = 2 * 2" by simp
  have l2: "length [7, 8, 9, 10 :: ref] = 2 * 2" by simp
  have a: "attr_list (snd (split_fe_model [] 14 demo_heap)) 15 ''boosters'' = Some [3, 5]"
    unfolding demo_split snd_conv by (simp add: attr_list_def attr_def list_items_def deref_def demo_heap_def)
  have s: "attr_list (snd (split_fe_model [] 14 demo_heap)) 16 ''boosters'' = Some [4, 6]"
    unfolding demo_split snd_conv by (simp add: attr_list_def attr_def list_items_def deref_def demo_heap_def)
  show ?thesis
    by (intro conjI)
      (rule demo_model l1 l2 a s split_fe_model_even_odd [OF demo_model l1 l2, of "[]"])+
qed

subsection \<open>C5: the only check\<close>

text \<open>
  C5, as stated, has the error raised if and only if \<^verbatim>\<open>rum_structure\<close> is not a sequence,
  and not raised when it is one. It fails for a tuple: the model at address 9 of
  \<open>demo_tuple_heap\<close> has a list of two boosters and a tuple of two structure dictionaries,
  which is a sequence, and the call raises ValueError.
\<close>

theorem split_fe_model_rejects_tuple_counterexample:
  "attr demo_tuple_heap 9 ''rum_structure'' = Some 7
   \<and> deref demo_tuple_heap 7 = Some (TupleObj [5, 6])
   \<and> is_sequence demo_tuple_heap 7
   \<and> split_fe_model [] 9 demo_tuple_heap = (Inl ValueError, demo_tuple_heap)"
proof -
  have a: "attr demo_tuple_heap 9 ''rum_structure'' = Some 7"
    by (simp add: attr_def deref_def demo_tuple_heap_def)
  have d: "deref demo_tuple_heap 7 = Some (TupleObj [5, 6])"
    by (simp add: deref_def demo_tuple_heap_def)
  have q: "is_sequence demo_tuple_heap 7"
    by (simp add: is_sequence_def d)
  have g: "getattr 9 ''rum_structure'' demo_tuple_heap = (Inr 7, demo_tuple_heap)"
    by (simp add: getattr_def deref_def demo_tuple_heap_def)
  have i: "isinstance_list 7 demo_tuple_heap = (Inr False, demo_tuple_heap)"
    by (simp add: isinstance_list_def d)
  have r: "split_fe_model [] 9 demo_tuple_heap = (Inl ValueError, demo_tuple_heap)"
    by (simp add: split_fe_model_def py_bind_def g i py_raise_def)
  show ?thesis by (intro conjI) (rule a d q r)+
qed

text \<open>
  C5, amended. For a model that has a \<^verbatim>\<open>rum_structure\<close>, \<^verbatim>\<open>split_fe_model\<close> raises ValueError
  if and only if that attribute is not a list (\<^verbatim>\<open>isinstance(model.rum_structure, list)\<close>
  fails: a tuple, a dictionary, an integer, \<^verbatim>\<open>None\<close> or any other object). Nothing else is
  validated: when it is a list, no ValueError is raised, whatever else the model holds.
\<close>

theorem split_fe_model_rejects_non_list:
  assumes "attr h model ''rum_structure'' = Some r"
  shows "(fst (split_fe_model init model h) = Inl ValueError) = (list_items h r = None)"
proof -
  from assms have g: "getattr model ''rum_structure'' h = (Inr r, h)"
    by (auto simp: attr_def getattr_def split: option.splits pyobj.splits)
  show ?thesis
  proof (cases "list_items h r")
    case None
    then have "isinstance_list r h = (Inr False, h)"
      by (auto simp: list_items_def isinstance_list_def split: option.splits pyobj.splits)
    then show ?thesis
      using None by (simp add: split_fe_model_def py_bind_def g py_raise_def)
  next
    case (Some items)
    then have "isinstance_list r h = (Inr True, h)"
      by (auto simp: list_items_def isinstance_list_def split: option.splits pyobj.splits)
    then show ?thesis
      using Some never_ValueError_after_check [of init model]
      by (simp add: split_fe_model_def py_bind_def [of "getattr model ''rum_structure''"]
          py_bind_def [of "isinstance_list r"] g never_raises_def)
  qed
qed

theorem split_fe_model_rejects_non_list_witness:
  "attr demo_dict_heap 1 ''rum_structure'' = Some 0
   \<and> list_items demo_dict_heap 0 = None
   \<and> fst (split_fe_model [] 1 demo_dict_heap) = Inl ValueError
   \<and> attr demo_heap 14 ''rum_structure'' = Some 12
   \<and> list_items demo_heap 12 = Some [7, 8, 9, 10]
   \<and> fst (split_fe_model [] 14 demo_heap) \<noteq> Inl ValueError"
proof -
  have a: "attr demo_dict_heap 1 ''rum_structure'' = Some 0"
    by (simp add: attr_def deref_def demo_dict_heap_def)
  have b: "list_items demo_dict_heap 0 = None"
    by (simp add: list_items_def deref_def demo_dict_heap_def)
  have c: "attr demo_heap 14 ''rum_structure'' = Some 12"
    by (simp add: attr_def deref_def demo_heap_def)
  have d: "list_items demo_heap 12 = Some [7, 8, 9, 10]"
    by (simp add: list_items_def deref_def demo_heap_def)
  have e: "fst (split_fe_model [] 1 demo_dict_heap) = Inl ValueError"
    using split_fe_model_rejects_non_list [OF a, of "[]"] b by simp
  have f: "fst (split_fe_model [] 14 demo_heap) \<noteq> Inl ValueError"
    using split_fe_model_rejects_non_list [OF c, of "[]"] d by simp
  show ?thesis by (intro conjI) (rule a b c d e f)+
qed

subsection \<open>C6: what the two results carry\<close>

text \<open>
  C6. Both models returned by \<^verbatim>\<open>split_fe_model\<close> hold, under \<^verbatim>\<open>num_classes\<close>, \<^verbatim>\<open>device\<close>,
  \<^verbatim>\<open>nests\<close> and \<^verbatim>\<open>alphas\<close>, the very references the source model holds (no copy is
  made), and the objects referred to are unchanged. Beyond the six attributes that the
  function assigns, a result has only what \<^verbatim>\<open>RUMBoost()\<close> itself put there: nothing else
  of the source model is carried over.
\<close>

theorem split_fe_model_copies_by_reference:
  assumes "is_rumboost_model h model bs rs"
  shows "\<exists>a s h'.
      split_fe_model init model h = (Inr (a, s), h')
    \<and> (\<forall>name \<in> {''num_classes'', ''device'', ''nests'', ''alphas''}.
          attr h' a name = attr h model name \<and> attr h' s name = attr h model name
        \<and> (\<forall>v ob. attr h model name = Some v \<and> deref h v = Some ob \<longrightarrow> deref h' v = Some ob))
    \<and> attr_names h' a = fst ` set init \<union>
         {''boosters'', ''rum_structure'', ''num_classes'', ''device'', ''nests'', ''alphas''}
    \<and> attr_names h' s = fst ` set init \<union>
         {''boosters'', ''rum_structure'', ''num_classes'', ''device'', ''nests'', ''alphas''}
    \<and> (\<forall>name. name \<notin> {''boosters'', ''rum_structure'', ''num_classes'', ''device'',
                        ''nests'', ''alphas''}
          \<longrightarrow> attr h' a name = map_of init name \<and> attr h' s name = map_of init name)"
proof -
  define h' where "h' = snd (split_fe_model init model h)"
  note obs = split_fe_model_observed [OF assms, of init, folded h'_def]
  note res = obs(1) and 5 = obs(6) and 6 = obs(7) and 7 = obs(8) and 8 = obs(9)
  have old: "deref h' v = Some ob" if "deref h v = Some ob" for v ob
    using split_fe_model_old_objects [OF that, of init model] res by simp
  have 9: "\<forall>name \<in> {''num_classes'', ''device'', ''nests'', ''alphas''}.
          attr h' (length h) name = attr h model name
        \<and> attr h' (Suc (length h)) name = attr h model name
        \<and> (\<forall>v ob. attr h model name = Some v \<and> deref h v = Some ob \<longrightarrow> deref h' v = Some ob)"
    using 5 old by blast
  show ?thesis
    apply (rule exI [of _ "length h"])
    apply (rule exI [of _ "Suc (length h)"])
    apply (rule exI [of _ h'])
    apply (intro conjI)
    apply (rule res 9 6 7 8)+
    done
qed

theorem split_fe_model_copies_by_reference_witness:
  "is_rumboost_model demo_heap 14 [3, 4, 5, 6] [7, 8, 9, 10]
   \<and> attr demo_heap 14 ''nests'' = Some 13
   \<and> attr (snd (split_fe_model [] 14 demo_heap)) 15 ''nests'' = Some 13
   \<and> attr (snd (split_fe_model [] 14 demo_heap)) 16 ''nests'' = Some 13
   \<and> attr demo_heap 14 ''best_iteration'' = Some 1
   \<and> attr (snd (split_fe_model [] 14 demo_heap)) 15 ''best_iteration'' = None
   \<and> (\<exists>a s h'.
      split_fe_model [] 14 demo_heap = (Inr (a, s), h')
    \<and> (\<forall>name \<in> {''num_classes'', ''device'', ''nests'', ''alphas''}.
          attr h' a name = attr demo_heap 14 name \<and> attr h' s name = attr demo_heap 14 name
        \<and> (\<forall>v ob. attr demo_heap 14 name = Some v \<and> deref demo_heap v = Some ob
              \<longrightarrow> deref h' v = Some ob))
    \<and> attr_names h' a = fst ` set ([] :: (string \<times> ref) list) \<union>
         {''boosters'', ''rum_structure'', ''num_classes'', ''device'', ''nests'', ''alphas''}
    \<and> attr_names h' s = fst ` set ([] :: (string \<times> ref) list) \<union>
         {''boosters'', ''rum_structure'', ''num_classes'', ''device'', ''nests'', ''alphas''}
    \<and> (\<forall>name. name \<notin> {''boosters'', ''rum_structure'', ''num_classes'', ''device'',
                        ''nests'', ''alphas''}
          \<longrightarrow> attr h' a name = map_of [] name \<and> attr h' s name = map_of [] name))"
proof -
  have a: "attr demo_heap 14 ''nests'' = Some 13"
    by (simp add: attr_def deref_def demo_heap_def)
  have b: "attr (snd (split_fe_model [] 14 demo_heap)) 15 ''nests'' = Some 13"
    unfolding demo_split snd_conv by (simp add: attr_def deref_def demo_heap_def)
  have c: "attr (snd (split_fe_model [] 14 demo_heap)) 16 ''nests'' = Some 13"
    unfolding demo_split snd_conv by (simp add: attr_def deref_def demo_heap_def)
  have d: "attr demo_heap 14 ''best_iteration'' = Some 1"
    by (simp add: attr_def deref_def demo_heap_def)
  have e: "attr (snd (split_fe_model [] 14 demo_heap)) 15 ''best_iteration'' = None"
    unfolding demo_split snd_conv by (simp add: attr_def deref_def demo_heap_def)
  show ?thesis
    by (intro conjI)
      (rule demo_model a b c d e split_fe_model_copies_by_reference [OF demo_model, of "[]"])+
qed

subsection \<open>C7: no side effect on the source\<close>

text \<open>
  C7. For every input and every outcome of \<^verbatim>\<open>split_fe_model\<close>, exception or not, the
  objects that existed before the call are unchanged after it: the store has only grown
  at its end. In particular the source model and each of its attributes are as before.
\<close>

theorem split_fe_model_leaves_source_untouched:
  "take (length h) (snd (split_fe_model init model h)) = h
   \<and> deref (snd (split_fe_model init model h)) model = deref h model
   \<and> (\<forall>name. attr (snd (split_fe_model init model h)) model name = attr h model name)
   \<and> (\<forall>r ob. deref h r = Some ob \<longrightarrow> deref (snd (split_fe_model init model h)) r = Some ob)"
proof -
  have d: "deref (snd (split_fe_model init model h)) model = deref h model"
  proof (cases "deref h model")
    case None
    then show ?thesis by (simp add: split_fe_model_dangling)
  next
    case (Some ob)
    then show ?thesis by (simp add: split_fe_model_old_objects)
  qed
  then have "attr (snd (split_fe_model init model h)) model name = attr h model name" for name
    by (simp add: attr_def)
  then have a: "\<forall>name. attr (snd (split_fe_model init model h)) model name = attr h model name"
    by blast
  have o: "\<forall>r ob. deref h r = Some ob \<longrightarrow> deref (snd (split_fe_model init model h)) r = Some ob"
    using split_fe_model_old_objects by blast
  show ?thesis
    by (intro conjI) (rule split_fe_model_frame d a o)+
qed

theorem split_fe_model_leaves_source_untouched_witness:
  "take (length demo_heap) (snd (split_fe_model [] 14 demo_heap)) = demo_heap
   \<and> deref (snd (split_fe_model [] 14 demo_heap)) 14 = deref demo_heap 14
   \<and> attr (snd (split_fe_model [] 14 demo_heap)) 14 ''boosters'' = attr demo_heap 14 ''boosters''
   \<and> deref demo_heap 11 = Some (ListObj [3, 4, 5, 6])
   \<and> deref (snd (split_fe_model [] 14 demo_heap)) 11 = Some (ListObj [3, 4, 5, 6])
   \<and> length (snd (split_fe_model [] 14 demo_heap)) = length demo_heap + 6"
proof -
  note t = split_fe_model_leaves_source_untouched [of demo_heap "[]" 14]
  have a: "deref demo_heap 11 = Some (ListObj [3, 4, 5, 6])"
    by (simp add: deref_def demo_heap_def)
  have b: "deref (snd (split_fe_model [] 14 demo_heap)) 11 = Some (ListObj [3, 4, 5, 6])"
    using t a by blast
  have c: "attr (snd (split_fe_model [] 14 demo_heap)) 14 ''boosters'' = attr demo_heap 14 ''boosters''"
    using t by blast
  have d: "length (snd (split_fe_model [] 14 demo_heap)) = length demo_heap + 6"
    by (simp add: demo_split)
  show ?thesis
    by (intro conjI) (rule t [THEN conjunct1] t [THEN conjunct2, THEN conjunct1] a b c d)+
qed

section \<open>Properties of assist\_model\_spec\<close>

subsection \<open>Formatting an index is injective\<close>





subsection \<open>The dictionary of placeholders\<close>





subsection \<open>The loops\<close>






subsection \<open>The concrete models, evaluated\<close>





subsection \<open>C9: the placeholders\<close>



subsection \<open>C10: nothing is returned\<close>




end
